theory Spec2Isabelle
  imports Main "HOL-Library.Multiset"
begin

section \<open>Errors\<close>

text \<open>
  Go's \<open>error\<close> values as a datatype; a nil error is \<open>None\<close> of \<open>error option\<close>.
  One constructor per \<open>fmt.Errorf\<close> format of the repository, the wrapped error (\<open>%w\<close>)
  as argument. \<open>OsError\<close> stands for an error produced outside the repository (the
  operating system, the \<open>os/exec\<close> package), \<open>ContextCanceled\<close> for \<open>context.Canceled\<close>.
\<close>

datatype error =
    OsError string
  | ContextCanceled
  | CannotAccessFile error
  | InputIsDirectory
  | UnsupportedFormat string
  | FFmpegNotFound error
  | CreateDirFailed error
  | ConversionFailed error
  | NoInputFiles
  | ConversionsFailed nat

section \<open>Library functions the code calls\<close>

text \<open>
  The functions of Go's \<open>strings\<close> and \<open>path/filepath\<close> packages that the repository
  calls, for a Unix build (separator \<open>/\<close>, no volume names), on byte strings.
\<close>

definition HasSuffix :: "string \<Rightarrow> string \<Rightarrow> bool" where
  "HasSuffix s suf = (length suf \<le> length s \<and> drop (length s - length suf) s = suf)"

definition TrimSuffix :: "string \<Rightarrow> string \<Rightarrow> string" where
  "TrimSuffix s suf = (if HasSuffix s suf then take (length s - length suf) s else s)"

definition HasPrefix :: "string \<Rightarrow> string \<Rightarrow> bool" where
  "HasPrefix s pre = (length pre \<le> length s \<and> take (length pre) s = pre)"

fun Contains :: "string \<Rightarrow> string \<Rightarrow> bool" where
  "Contains [] sub = (sub = [])"
| "Contains (c # cs) sub = (HasPrefix (c # cs) sub \<or> Contains cs sub)"

text \<open>\<open>strings.ToLower\<close>, on ASCII letters (bytes outside \<open>A\<close>..\<open>Z\<close> are kept).\<close>

definition toLowerChar :: "char \<Rightarrow> char" where
  "toLowerChar c =
     (case map_of (zip ''ABCDEFGHIJKLMNOPQRSTUVWXYZ'' ''abcdefghijklmnopqrstuvwxyz'') c of
        Some d \<Rightarrow> d
      | None \<Rightarrow> c)"

definition ToLower :: "string \<Rightarrow> string" where
  "ToLower s = map toLowerChar s"

text \<open>\<open>fmt.Sprintf("%d", n)\<close>: the decimal digits of an integer.\<close>

function digits10 :: "nat \<Rightarrow> string" where
  "digits10 n =
     (if n < 10 then [''0123456789'' ! n]
      else digits10 (n div 10) @ [''0123456789'' ! (n mod 10)])"
  by pat_completeness auto
termination
  by (relation "measure id") auto

declare digits10.simps [simp del]

definition Sprintf_d :: "int \<Rightarrow> string" where
  "Sprintf_d i = (if i < 0 then CHR ''-'' # digits10 (nat (- i)) else digits10 (nat i))"

definition IsPathSeparator :: "char \<Rightarrow> bool" where
  "IsPathSeparator c = (c = CHR ''/'')"

text \<open>
  \<open>filepath.Ext\<close> scans the path from its end: it stops with the empty string at a
  separator, and with the suffix that starts at the dot at the first dot it meets.
  \<open>ext_scan\<close> is that loop, on the reversed path, with the bytes passed so far.
\<close>

fun ext_scan :: "string \<Rightarrow> string \<Rightarrow> string" where
  "ext_scan [] acc = []"
| "ext_scan (c # cs) acc =
     (if IsPathSeparator c then []
      else if c = CHR ''.'' then c # acc
      else ext_scan cs (c # acc))"

definition Ext :: "string \<Rightarrow> string" where
  "Ext path = ext_scan (rev path) []"

text \<open>
  \<open>filepath.Base\<close>: \<open>.\<close> for the empty path; otherwise the trailing separators are
  stripped and the last element is returned, \<open>/\<close> when nothing is left.
\<close>

definition Base :: "string \<Rightarrow> string" where
  "Base path =
     (if path = [] then ''.''
      else
        let p = rev (dropWhile IsPathSeparator (rev path));
            e = rev (takeWhile (\<lambda>c. \<not> IsPathSeparator c) (rev p))
        in if e = [] then ''/'' else e)"

text \<open>
  \<open>filepath.Clean\<close>, element by element: empty elements and \<open>.\<close> are dropped, \<open>..\<close>
  removes the element before it when there is one, is dropped at the root and is kept at the
  start of a relative path. \<open>clean_elems rooted out es\<close> holds the elements written so far
  in \<open>out\<close>, last one first.
\<close>

fun split_sep :: "string \<Rightarrow> string list" where
  "split_sep [] = [[]]"
| "split_sep (c # cs) =
     (if IsPathSeparator c then [] # split_sep cs
      else (case split_sep cs of
              [] \<Rightarrow> [[c]]
            | e # es \<Rightarrow> (c # e) # es))"

fun clean_elems :: "bool \<Rightarrow> string list \<Rightarrow> string list \<Rightarrow> string list" where
  "clean_elems rooted out [] = rev out"
| "clean_elems rooted out (e # es) =
     (if e = [] \<or> e = ''.'' then clean_elems rooted out es
      else if e = ''..'' then
        (case out of
           [] \<Rightarrow> if rooted then clean_elems rooted out es
                 else clean_elems rooted [''..''] es
         | t # ts \<Rightarrow> if t = ''..'' then clean_elems rooted (''..'' # out) es
                     else clean_elems rooted ts es)
      else clean_elems rooted (e # out) es)"

fun join_sep :: "string list \<Rightarrow> string" where
  "join_sep [] = []"
| "join_sep [e] = e"
| "join_sep (e # es) = e @ ''/'' @ join_sep es"

definition Clean :: "string \<Rightarrow> string" where
  "Clean path =
     (if path = [] then ''.''
      else
        let rooted = IsPathSeparator (hd path);
            s = join_sep (clean_elems rooted [] (split_sep path))
        in if rooted then CHR ''/'' # s
           else if s = [] then ''.'' else s)"

text \<open>
  \<open>filepath.Join\<close> cleans the elements from the first non-empty one on, joined by the
  separator, and is the empty string when every element is empty.
\<close>

definition Join :: "string list \<Rightarrow> string" where
  "Join elem =
     (case dropWhile (\<lambda>e. e = []) elem of
        [] \<Rightarrow> []
      | es \<Rightarrow> Clean (join_sep es))"

text \<open>\<open>filepath.Dir\<close> cleans the path up to and including its last separator.\<close>

definition Dir :: "string \<Rightarrow> string" where
  "Dir path = Clean (rev (dropWhile (\<lambda>c. \<not> IsPathSeparator c) (rev path)))"

section \<open>The ffmpeg wrapper (internal/executor/ffmpeg.go)\<close>

record FFmpegOptions =
  ff_VideoCodec :: string
  ff_CRF :: int
  ff_Preset :: string
  ff_Bitrate :: string
  ff_AudioCodec :: string
  ff_AudioBitrate :: string
  ff_HWAccel :: string
  ff_HWAccelDevice :: string
  ff_ExtraArgs :: "string list"
  ff_Verbose :: bool

text \<open>
  \<open>buildArgs\<close>, statement by statement: each definition below is one block of the
  function, taking the argument list built so far and returning it extended.
\<close>

definition args_hwaccel :: "FFmpegOptions \<Rightarrow> string list \<Rightarrow> string list" where
  "args_hwaccel opts args =
     (if ff_HWAccel opts \<noteq> [] then
        let args = args @ [''-hwaccel'', ff_HWAccel opts]
        in if ff_HWAccelDevice opts \<noteq> [] then args @ [''-hwaccel_device'', ff_HWAccelDevice opts]
           else args
      else args)"

definition args_video_codec :: "FFmpegOptions \<Rightarrow> string list \<Rightarrow> string list" where
  "args_video_codec opts args =
     (if ff_VideoCodec opts \<noteq> [] then
        let codec = ff_VideoCodec opts;
            codec = (if ff_HWAccel opts = ''videotoolbox'' then
                       (if codec = ''h264'' then ''h264_videotoolbox''
                        else if codec = ''h265'' \<or> codec = ''hevc'' then ''hevc_videotoolbox''
                        else codec)
                     else codec)
        in args @ [''-c:v'', codec]
      else args @ [''-c:v'', ''libx264''])"

definition args_quality :: "FFmpegOptions \<Rightarrow> string list \<Rightarrow> string list" where
  "args_quality opts args =
     (if ff_CRF opts > 0 then
        (if \<not> Contains (ff_VideoCodec opts) ''videotoolbox''
         then args @ [''-crf'', Sprintf_d (ff_CRF opts)]
         else args @ [''-q:v'', Sprintf_d (ff_CRF opts)])
      else args)"

definition args_preset :: "FFmpegOptions \<Rightarrow> string list \<Rightarrow> string list" where
  "args_preset opts args =
     (if ff_Preset opts \<noteq> [] \<and> \<not> Contains (ff_VideoCodec opts) ''videotoolbox''
      then args @ [''-preset'', ff_Preset opts]
      else args)"

definition args_bitrate :: "FFmpegOptions \<Rightarrow> string list \<Rightarrow> string list" where
  "args_bitrate opts args =
     (if ff_Bitrate opts \<noteq> [] then args @ [''-b:v'', ff_Bitrate opts] else args)"

definition args_audio :: "FFmpegOptions \<Rightarrow> string list \<Rightarrow> string list" where
  "args_audio opts args =
     (let args = (if ff_AudioCodec opts \<noteq> [] then args @ [''-c:a'', ff_AudioCodec opts]
                  else args @ [''-c:a'', ''aac''])
      in if ff_AudioBitrate opts \<noteq> [] then args @ [''-b:a'', ff_AudioBitrate opts] else args)"

definition args_extra :: "FFmpegOptions \<Rightarrow> string list \<Rightarrow> string list" where
  "args_extra opts args =
     (if length (ff_ExtraArgs opts) > 0 then args @ ff_ExtraArgs opts else args)"

definition buildArgs :: "string \<Rightarrow> string \<Rightarrow> FFmpegOptions \<Rightarrow> string list" where
  "buildArgs input output opts =
     (let args = [''-y''];
          args = args_hwaccel opts args;
          args = args @ [''-i'', input];
          args = args_video_codec opts args;
          args = args_quality opts args;
          args = args_preset opts args;
          args = args_bitrate opts args;
          args = args_audio opts args;
          args = args_extra opts args;
          args = args @ [output]
      in args)"

section \<open>The world outside the program\<close>

text \<open>
  What the program reads and changes outside itself: the file system as \<open>os.Stat\<close> sees it
  (a path with no entry is a path whose \<open>os.Stat\<close> returns an error), what
  \<open>exec.LookPath("ffmpeg")\<close> finds, and the log of the writing operations performed so
  far: each \<open>os.MkdirAll\<close> and each run of the external encoder, in order.
  The program writes to the file system through these two operations only.
\<close>

record FileInfo =
  IsDir :: bool
  Size :: int

datatype effect =
    EvMkdirAll string
  | EvRun string "string list"

record world =
  files :: "string \<rightharpoonup> FileInfo"
  ffmpeg_in_PATH :: "string option"
  effects :: "effect list"

text \<open>
  The behaviour of the operating system and of the external encoder is a parameter:
  what \<open>os.MkdirAll\<close> does to the file system and whether it fails, what a run of the
  encoder binary with an argument list does to the file system, its standard error text and
  its exit error, and \<open>runtime.NumCPU()\<close>.
\<close>

record env =
  mkdir_all :: "string \<Rightarrow> (string \<rightharpoonup> FileInfo) \<Rightarrow> (string \<rightharpoonup> FileInfo) \<times> error option"
  run_cmd :: "string \<Rightarrow> string list \<Rightarrow> (string \<rightharpoonup> FileInfo)
                \<Rightarrow> (string \<rightharpoonup> FileInfo) \<times> string \<times> error option"
  NumCPU :: nat

definition os_Stat :: "world \<Rightarrow> string \<Rightarrow> error + FileInfo" where
  "os_Stat w name = (case files w name of None \<Rightarrow> Inl (OsError name) | Some info \<Rightarrow> Inr info)"

definition os_MkdirAll :: "env \<Rightarrow> string \<Rightarrow> world \<Rightarrow> error option \<times> world" where
  "os_MkdirAll E dir w =
     (let (fs, err) = mkdir_all E dir (files w)
      in (err, w\<lparr>files := fs, effects := effects w @ [EvMkdirAll dir]\<rparr>))"

definition exec_LookPath :: "world \<Rightarrow> error + string" where
  "exec_LookPath w =
     (case ffmpeg_in_PATH w of None \<Rightarrow> Inl (OsError ''ffmpeg'') | Some p \<Rightarrow> Inr p)"

record FFmpegResult =
  fr_Success :: bool
  fr_Stderr :: string
  fr_Error :: "error option"

record FFmpeg =
  binaryPath :: string

definition NewFFmpeg :: "world \<Rightarrow> error + FFmpeg" where
  "NewFFmpeg w =
     (case exec_LookPath w of
        Inl err \<Rightarrow> Inl (FFmpegNotFound err)
      | Inr path \<Rightarrow> Inr \<lparr>binaryPath = path\<rparr>)"

text \<open>
  \<open>FFmpeg.Convert\<close> builds the argument list and runs the binary with it
  (\<open>cmd.Run()\<close>); the context goes to the child process only. Durations are not modelled.
\<close>

definition FFmpeg_Convert ::
  "env \<Rightarrow> FFmpeg \<Rightarrow> string \<Rightarrow> string \<Rightarrow> FFmpegOptions \<Rightarrow> world
     \<Rightarrow> (FFmpegResult \<times> error option) \<times> world" where
  "FFmpeg_Convert E f input output opts w =
     (let args = buildArgs input output opts;
          (fs, stderr, err) = run_cmd E (binaryPath f) args (files w);
          w = w\<lparr>files := fs, effects := effects w @ [EvRun (binaryPath f) args]\<rparr>;
          result = \<lparr>fr_Success = (err = None), fr_Stderr = stderr, fr_Error = err\<rparr>
      in ((result, err), w))"

section \<open>Options and results (internal/converter/types.go)\<close>

record Options =
  OutputDir :: string
  Workers :: int
  SkipExisting :: bool
  DryRun :: bool
  Verbose :: bool
  FlatStructure :: bool
  ShowProgress :: bool

record Result =
  Input :: string
  Output :: string
  Success :: bool
  Error :: "error option"
  InputSize :: int
  OutputSize :: int
  Skipped :: bool
  SkipReason :: string

text \<open>The zero value of a \<open>Result\<close> with its \<open>Input\<close> set: \<open>&converter.Result{Input: input}\<close>.\<close>

definition new_Result :: "string \<Rightarrow> Result" where
  "new_Result input =
     \<lparr>Input = input, Output = [], Success = False, Error = None, InputSize = 0,
      OutputSize = 0, Skipped = False, SkipReason = []\<rparr>"

section \<open>The MP4 converter (internal/processors/mov_to_mp4)\<close>

record MP4Options =
  mp4_CRF :: int
  mp4_Preset :: string
  mp4_VideoCodec :: string
  mp4_AudioCodec :: string
  mp4_AudioBitrate :: string
  mp4_HWAccel :: string
  mp4_HWAccelDevice :: string
  mp4_VideoBitrate :: string

definition DefaultMP4Options :: MP4Options where
  "DefaultMP4Options =
     \<lparr>mp4_CRF = 23, mp4_Preset = ''medium'', mp4_VideoCodec = ''h264'',
      mp4_AudioCodec = ''aac'', mp4_AudioBitrate = ''192k'', mp4_HWAccel = [],
      mp4_HWAccelDevice = [], mp4_VideoBitrate = []\<rparr>"

text \<open>The converter: its lazily created ffmpeg wrapper (\<open>None\<close> is the nil pointer) and its options.\<close>

record MP4Converter =
  ffmpeg :: "FFmpeg option"
  options :: MP4Options

definition NewMP4Converter :: MP4Converter where
  "NewMP4Converter = \<lparr>ffmpeg = None, options = DefaultMP4Options\<rparr>"

definition SupportedInputs :: "string list" where
  "SupportedInputs =
     [''.mov'', ''.avi'', ''.mkv'', ''.flv'', ''.wmv'', ''.m4v'', ''.mpeg'', ''.mpg'', ''.webm'']"

definition OutputExtension :: string where
  "OutputExtension = ''.mp4''"

definition Validate :: "world \<Rightarrow> string \<Rightarrow> error option" where
  "Validate w input =
     (case os_Stat w input of
        Inl err \<Rightarrow> Some (CannotAccessFile err)
      | Inr info \<Rightarrow>
          if IsDir info then Some InputIsDirectory
          else
            let ext = ToLower (Ext input);
                supported = list_ex (\<lambda>validExt. ext = validExt) SupportedInputs
            in if \<not> supported then Some (UnsupportedFormat ext) else None)"

definition determineOutputPath :: "string \<Rightarrow> Options \<Rightarrow> string" where
  "determineOutputPath input opts =
     (let baseName = TrimSuffix (Base input) (Ext input);
          outputName = baseName @ OutputExtension
      in if OutputDir opts \<noteq> [] then
           (if FlatStructure opts then Join [OutputDir opts, outputName]
            else Join [OutputDir opts, outputName])
         else Join [Dir input, outputName])"

definition ffmpegOpts_of :: "MP4Options \<Rightarrow> Options \<Rightarrow> FFmpegOptions" where
  "ffmpegOpts_of mo opts =
     \<lparr>ff_VideoCodec = mp4_VideoCodec mo, ff_CRF = mp4_CRF mo, ff_Preset = mp4_Preset mo,
      ff_Bitrate = mp4_VideoBitrate mo, ff_AudioCodec = mp4_AudioCodec mo,
      ff_AudioBitrate = mp4_AudioBitrate mo, ff_HWAccel = mp4_HWAccel mo,
      ff_HWAccelDevice = [], ff_ExtraArgs = [], ff_Verbose = Verbose opts\<rparr>"

text \<open>
  \<open>Convert\<close>, in the order of the source: validation, the lazy creation of the ffmpeg
  wrapper (\<open>init_ffmpeg\<close>), the output path, the skip check, the input size
  (\<open>with_input_size\<close>), the dry run, then the output directory and the encoder run
  (\<open>convert_run\<close>). It returns the result and the error, the converter (whose \<open>ffmpeg\<close>
  field it may have set) and the world. Printing and durations are not modelled.
\<close>

definition init_ffmpeg :: "MP4Converter \<Rightarrow> world \<Rightarrow> error + FFmpeg" where
  "init_ffmpeg c w = (case ffmpeg c of None \<Rightarrow> NewFFmpeg w | Some ff \<Rightarrow> Inr ff)"

definition with_input_size :: "world \<Rightarrow> string \<Rightarrow> Result \<Rightarrow> Result" where
  "with_input_size w input result =
     (case os_Stat w input of
        Inr info \<Rightarrow> result\<lparr>InputSize := Size info\<rparr>
      | Inl err \<Rightarrow> result)"

definition convert_run ::
  "env \<Rightarrow> MP4Converter \<Rightarrow> FFmpeg \<Rightarrow> world \<Rightarrow> string \<Rightarrow> string \<Rightarrow> Options \<Rightarrow> Result
     \<Rightarrow> (Result \<times> error option) \<times> world" where
  "convert_run E c ff w input output opts result =
     (case os_MkdirAll E (Dir output) w of
        (Some err, w) \<Rightarrow>
          ((result\<lparr>Error := Some (CreateDirFailed err)\<rparr>, Some (CreateDirFailed err)), w)
      | (None, w) \<Rightarrow>
          (case FFmpeg_Convert E ff input output (ffmpegOpts_of (options c) opts) w of
             ((ffResult, Some err), w) \<Rightarrow>
               ((result\<lparr>Error := Some (ConversionFailed err)\<rparr>, Some (ConversionFailed err)), w)
           | ((ffResult, None), w) \<Rightarrow>
               let result = (case os_Stat w output of
                               Inr info \<Rightarrow> result\<lparr>OutputSize := Size info\<rparr>
                             | Inl err \<Rightarrow> result)
               in ((result\<lparr>Success := True\<rparr>, None), w)))"

definition Convert ::
  "env \<Rightarrow> MP4Converter \<Rightarrow> world \<Rightarrow> string \<Rightarrow> Options
     \<Rightarrow> (Result \<times> error option) \<times> MP4Converter \<times> world" where
  "Convert E c w input opts =
     (let result = new_Result input
      in case Validate w input of
           Some err \<Rightarrow> ((result\<lparr>Error := Some err\<rparr>, Some err), c, w)
         | None \<Rightarrow>
             (case init_ffmpeg c w of
                Inl err \<Rightarrow> ((result\<lparr>Error := Some err\<rparr>, Some err), c, w)
              | Inr ff \<Rightarrow>
                  let c = c\<lparr>ffmpeg := Some ff\<rparr>;
                      output = determineOutputPath input opts;
                      result = result\<lparr>Output := output\<rparr>
                  in if SkipExisting opts
                        \<and> (case os_Stat w output of Inr info \<Rightarrow> True | Inl err \<Rightarrow> False) then
                       ((result\<lparr>Skipped := True, SkipReason := ''file already exists''\<rparr>, None),
                        c, w)
                     else
                       let result = with_input_size w input result
                       in if DryRun opts then ((result\<lparr>Success := True\<rparr>, None), c, w)
                          else
                            let (r, w) = convert_run E c ff w input output opts result
                            in (r, c, w)))"

section \<open>The worker pool (internal/executor/pool.go)\<close>

text \<open>
  A worker goroutine is at one of these places of \<open>worker()\<close>:
  \<^item> \<open>Idle\<close>: blocked in the receive of \<open>for job := range p.jobs\<close>;
  \<^item> \<open>Holding job\<close>: it has received \<open>job\<close> and stands before the \<open>select\<close>;
  \<^item> \<open>Running job\<close>: the \<open>default\<close> branch was taken, \<open>job(p.ctx)\<close> is executing;
  \<^item> \<open>SendingResult err\<close>: the job returned \<open>err\<close>, blocked in \<open>p.results <- err\<close>;
  \<^item> \<open>SendingCancel\<close>: the \<open>ctx.Done()\<close> branch was taken, blocked in
    \<open>p.results <- p.ctx.Err()\<close>, after which it returns;
  \<^item> \<open>Exited\<close>: it has returned, and the deferred \<open>p.wg.Done()\<close> has run.
\<close>

datatype 'j wstate =
    Idle
  | Holding 'j
  | Running 'j
  | SendingResult "error option"
  | SendingCancel
  | Exited

text \<open>
  The pool: the configured worker count, the goroutines started so far, whether the two
  channels are closed, the WaitGroup counter, whether the context is cancelled, and the
  values received from the results channel so far, in order. Both channels are unbuffered,
  so a send and its receive are one step.
\<close>

record 'j Pool =
  workers :: int
  ws :: "'j wstate list"
  jobs_closed :: bool
  results_closed :: bool
  wg :: int
  cancelled :: bool
  delivered :: "error option list"

definition NewPool :: "env \<Rightarrow> int \<Rightarrow> 'j Pool" where
  "NewPool E n =
     (let n = (if n \<le> 0 then int (NumCPU E) else n)
      in \<lparr>workers = n, ws = [], jobs_closed = False, results_closed = False, wg = 0,
          cancelled = False, delivered = []\<rparr>)"

text \<open>\<open>Start\<close>: the loop \<open>for i := 0; i < p.workers; i++ { p.wg.Add(1); go p.worker() }\<close>.\<close>

fun start_loop :: "nat \<Rightarrow> 'j Pool \<Rightarrow> 'j Pool" where
  "start_loop 0 p = p"
| "start_loop (Suc k) p = start_loop k (p\<lparr>wg := wg p + 1, ws := ws p @ [Idle]\<rparr>)"

definition Start :: "'j Pool \<Rightarrow> 'j Pool" where
  "Start p = start_loop (nat (workers p)) p"

definition Cancel :: "'j Pool \<Rightarrow> 'j Pool" where
  "Cancel p = p\<lparr>cancelled := True\<rparr>"

text \<open>
  The steps of a started pool. Each is one atomic action of one goroutine:
  \<^item> \<open>Submit i job\<close>: \<open>Submit\<close>'s send \<open>p.jobs <- job\<close> is received by worker \<open>i\<close>;
  \<^item> \<open>Select i\<close>: worker \<open>i\<close> evaluates its \<open>select\<close> on \<open>p.ctx.Done()\<close>;
  \<^item> \<open>Return i err\<close>: the job that worker \<open>i\<close> is executing returns \<open>err\<close>;
  \<^item> \<open>Deliver i\<close>: the value worker \<open>i\<close> is sending is received from \<open>Results()\<close>; a worker
    that has sent the cancellation error returns;
  \<^item> \<open>Leave i\<close>: worker \<open>i\<close> finds \<open>p.jobs\<close> closed, leaves its loop and returns;
  \<^item> \<open>CloseJobs\<close>: \<open>Stop\<close> executes \<open>close(p.jobs)\<close>;
  \<^item> \<open>CloseResults\<close>: \<open>p.wg.Wait()\<close> of \<open>Stop\<close> returns (the counter is zero) and \<open>Stop\<close>
    executes \<open>close(p.results)\<close>;
  \<^item> \<open>DoCancel\<close>: \<open>Cancel\<close> is called.
  The result is \<open>None\<close> where the step cannot happen in the state: the goroutine is not at
  that place or is blocked, or the step would panic (a send on a closed channel, closing
  a closed channel).
\<close>

datatype 'j event =
    Submit nat 'j
  | Select nat
  | Return nat "error option"
  | Deliver nat
  | Leave nat
  | CloseJobs
  | CloseResults
  | DoCancel

definition set_worker :: "nat \<Rightarrow> 'j wstate \<Rightarrow> 'j Pool \<Rightarrow> 'j Pool" where
  "set_worker i w p = p\<lparr>ws := (ws p)[i := w]\<rparr>"

definition worker_exit :: "nat \<Rightarrow> 'j Pool \<Rightarrow> 'j Pool" where
  "worker_exit i p = p\<lparr>ws := (ws p)[i := Exited], wg := wg p - 1\<rparr>"

fun pool_step :: "'j event \<Rightarrow> 'j Pool \<Rightarrow> 'j Pool option" where
  "pool_step (Submit i job) p =
     (if i < length (ws p) \<and> \<not> jobs_closed p \<and> ws p ! i = Idle
      then Some (set_worker i (Holding job) p) else None)"
| "pool_step (Select i) p =
     (if i < length (ws p) then
        (case ws p ! i of
           Holding job \<Rightarrow>
             if cancelled p then Some (set_worker i SendingCancel p)
             else Some (set_worker i (Running job) p)
         | _ \<Rightarrow> None)
      else None)"
| "pool_step (Return i err) p =
     (if i < length (ws p) then
        (case ws p ! i of
           Running job \<Rightarrow> Some (set_worker i (SendingResult err) p)
         | _ \<Rightarrow> None)
      else None)"
| "pool_step (Deliver i) p =
     (if i < length (ws p) \<and> \<not> results_closed p then
        (case ws p ! i of
           SendingResult err \<Rightarrow>
             Some (set_worker i Idle (p\<lparr>delivered := delivered p @ [err]\<rparr>))
         | SendingCancel \<Rightarrow>
             Some (worker_exit i (p\<lparr>delivered := delivered p @ [Some ContextCanceled]\<rparr>))
         | _ \<Rightarrow> None)
      else None)"
| "pool_step (Leave i) p =
     (if i < length (ws p) \<and> jobs_closed p \<and> ws p ! i = Idle
      then Some (worker_exit i p) else None)"
| "pool_step CloseJobs p =
     (if jobs_closed p then None else Some (p\<lparr>jobs_closed := True\<rparr>))"
| "pool_step CloseResults p =
     (if jobs_closed p \<and> wg p = 0 \<and> \<not> results_closed p
      then Some (p\<lparr>results_closed := True\<rparr>) else None)"
| "pool_step DoCancel p = Some (Cancel p)"

text \<open>A schedule is a list of steps; running it fails where one of its steps cannot happen.\<close>

fun pool_run :: "'j event list \<Rightarrow> 'j Pool \<Rightarrow> 'j Pool option" where
  "pool_run [] p = Some p"
| "pool_run (ev # evs) p =
     (case pool_step ev p of None \<Rightarrow> None | Some p' \<Rightarrow> pool_run evs p')"

text \<open>
  What the claims count: the live workers (goroutines that have not returned), the jobs in
  flight (received by a worker, their value not yet received from the results channel),
  the running jobs, and the jobs handed to workers by a schedule.
\<close>

fun is_live :: "'j wstate \<Rightarrow> bool" where
  "is_live Exited = False"
| "is_live _ = True"

fun is_in_flight :: "'j wstate \<Rightarrow> bool" where
  "is_in_flight Idle = False"
| "is_in_flight Exited = False"
| "is_in_flight _ = True"

fun is_running :: "'j wstate \<Rightarrow> bool" where
  "is_running (Running job) = True"
| "is_running _ = False"

fun is_short_circuited :: "'j wstate \<Rightarrow> bool" where
  "is_short_circuited SendingCancel = True"
| "is_short_circuited Exited = True"
| "is_short_circuited _ = False"

fun is_submit :: "'j event \<Rightarrow> bool" where
  "is_submit (Submit i job) = True"
| "is_submit _ = False"

definition live :: "'j Pool \<Rightarrow> nat" where
  "live p = length (filter is_live (ws p))"

definition in_flight :: "'j Pool \<Rightarrow> nat" where
  "in_flight p = length (filter is_in_flight (ws p))"

definition dequeued :: "'j event list \<Rightarrow> nat" where
  "dequeued evs = length (filter is_submit evs)"

text \<open>
  The values on their way: what a worker blocked in a send is sending (\<open>pending\<close>), and what
  each step of a schedule produces for the results channel (\<open>outcomes\<close>): the error a job
  returns, and the cancellation error when a \<open>select\<close> finds the context cancelled.
\<close>

fun sending :: "'j wstate \<Rightarrow> error option list" where
  "sending (SendingResult err) = [err]"
| "sending SendingCancel = [Some ContextCanceled]"
| "sending _ = []"

definition pending :: "'j Pool \<Rightarrow> error option list" where
  "pending p = concat (map sending (ws p))"

fun outcome :: "'j event \<Rightarrow> 'j Pool \<Rightarrow> error option list" where
  "outcome (Return i err) p = [err]"
| "outcome (Select i) p = (if cancelled p then [Some ContextCanceled] else [])"
| "outcome _ p = []"

fun outcomes :: "'j event list \<Rightarrow> 'j Pool \<Rightarrow> error option list" where
  "outcomes [] p = []"
| "outcomes (ev # evs) p =
     (case pool_step ev p of None \<Rightarrow> [] | Some p' \<Rightarrow> outcome ev p @ outcomes evs p')"

text \<open>
  Invariants of a started pool. \<open>pool_inv\<close>: the workers are those \<open>Start\<close> spawned, the
  WaitGroup counts the live ones, the results channel is closed only when the jobs channel
  is closed and no worker is live, a worker sends the cancellation error only when the
  context is cancelled, and no worker has exited while the jobs channel is open and the
  context is not cancelled. \<open>early_exit_inv\<close>: while the jobs channel is open, every worker
  that has exited has delivered a cancellation error.
\<close>

definition pool_inv :: "'j Pool \<Rightarrow> bool" where
  "pool_inv p =
     (length (ws p) = nat (workers p)
      \<and> wg p = int (live p)
      \<and> (results_closed p \<longrightarrow> jobs_closed p \<and> live p = 0)
      \<and> (\<not> cancelled p \<longrightarrow> SendingCancel \<notin> set (ws p))
      \<and> (\<not> jobs_closed p \<and> \<not> cancelled p \<longrightarrow> Exited \<notin> set (ws p)))"

definition early_exit_inv :: "'j Pool \<Rightarrow> bool" where
  "early_exit_inv p =
     (jobs_closed p
      \<or> length (ws p) \<le> live p + count_list (delivered p) (Some ContextCanceled))"

section \<open>Batch conversion (ConvertBatch)\<close>

text \<open>
  \<open>ConvertBatch\<close> runs four kinds of goroutines: the one that submits the jobs and then
  calls \<open>pool.Stop()\<close>, the workers of the pool, which execute the job closures, and the
  caller's own, which drains \<open>pool.Results()\<close>, computes the counts and returns. They share
  the \<open>results\<close> slice, the converter and the world.

  The body of a job closure (processor.go, lines 209 to 225) passes through these places:
  \<^item> \<open>AtConvert\<close>: before \<open>result, err := c.Convert(inputCopy, jobOpts)\<close>;
  \<^item> \<open>AtAppend result err\<close>: before \<open>results = append(results, result)\<close> reads \<open>results\<close>;
  \<^item> \<open>AtStore result err n\<close>: \<open>append\<close> has read the slice, whose length was \<open>n\<close>, and is
    about to write the element at index \<open>n\<close> and the slice with length \<open>n + 1\<close>;
  \<^item> \<open>AtReturn err\<close>: before \<open>return err\<close>;
  \<^item> \<open>NoJob\<close>: the worker is not inside a job closure.
  No lock or channel operation stands between these places, so other goroutines may run
  between any two of them. The progress bar and printing are not modelled.
\<close>

datatype jobpc =
    NoJob
  | AtConvert
  | AtAppend Result "error option"
  | AtStore Result "error option" nat
  | AtReturn "error option"

text \<open>
  The state of a batch: the pool, whose jobs carry the input path their closure captured;
  the inputs the submitting goroutine has not submitted yet; the place of each worker in its
  job closure; the converter and the world; the \<open>results\<close> slice as its backing array
  (\<open>None\<close> is a nil pointer) and its length; the \<open>errors\<close> slice of the draining loop; the
  errors the job closures have returned so far, in order; the three counts once computed;
  and the value \<open>ConvertBatch\<close> has returned, once it has.
\<close>

record batch =
  pool :: "string Pool"
  todo :: "string list"
  pcs :: "jobpc list"
  conv :: MP4Converter
  sys :: world
  res_arr :: "Result option list"
  res_len :: nat
  errors :: "error list"
  job_errors :: "error option list"
  counts :: "(nat \<times> nat \<times> nat) option"
  returned :: "(Result option list \<times> error option) option"

text \<open>
  The state after \<open>results := make([]*converter.Result, 0, len(inputs))\<close>,
  \<open>pool := executor.NewPool(opts.Workers)\<close> and \<open>pool.Start()\<close>.
\<close>

definition batch_init :: "env \<Rightarrow> MP4Converter \<Rightarrow> world \<Rightarrow> string list \<Rightarrow> Options \<Rightarrow> batch" where
  "batch_init E c w inputs opts =
     (let p = Start (NewPool E (Workers opts))
      in \<lparr>pool = p, todo = inputs, pcs = replicate (length (ws p)) NoJob, conv = c, sys = w,
          res_arr = replicate (length inputs) None, res_len = 0, errors = [],
          job_errors = [], counts = None, returned = None\<rparr>)"

text \<open>
  The loop that classifies the results (lines 246 to 254), with its three counters
  \<open>(success, failed, skipped)\<close>; reading a field of a nil pointer panics (\<open>None\<close>).
\<close>

fun count_results :: "Result option list \<Rightarrow> nat \<times> nat \<times> nat \<Rightarrow> (nat \<times> nat \<times> nat) option" where
  "count_results [] acc = Some acc"
| "count_results (None # rs) acc = None"
| "count_results (Some r # rs) (success, failed, skipped) =
     (if Skipped r then count_results rs (success, failed, skipped + 1)
      else if Success r then count_results rs (success + 1, failed, skipped)
      else count_results rs (success, failed + 1, skipped))"

text \<open>The error returned at the end (lines 260 to 264).\<close>

definition batch_error :: "error list \<Rightarrow> error option" where
  "batch_error errs =
     (if length errs > 0 then Some (ConversionsFailed (length errs)) else None)"

text \<open>\<open>append(results, result)\<close> once the slice has been read with length \<open>n\<close>: the element
  is written at index \<open>n\<close> of the backing array (or of a longer copy, were \<open>n\<close> the capacity)
  and the slice of length \<open>n + 1\<close> is stored.\<close>

definition store_result :: "nat \<Rightarrow> Result \<Rightarrow> batch \<Rightarrow> batch" where
  "store_result n r s =
     s\<lparr>res_arr := (if n < length (res_arr s) then (res_arr s)[n := Some r]
                    else take n (res_arr s) @ [Some r]),
       res_len := n + 1\<rparr>"

text \<open>
  The steps of a batch, each one atomic action of one goroutine:
  \<^item> \<open>DoSubmit i\<close>: the submitting goroutine hands the job of its next input to worker \<open>i\<close>;
  \<^item> \<open>DoStopClose\<close>, \<open>DoStopWait\<close>: after the last input, the two parts of \<open>pool.Stop()\<close>;
  \<^item> \<open>WSelect i\<close>, \<open>WLeave i\<close>: worker \<open>i\<close> evaluates its \<open>select\<close>, or leaves its loop;
  \<^item> \<open>JConvert i\<close>, \<open>JRead i\<close>, \<open>JStore i\<close>, \<open>JReturn i\<close>: the job closure that worker \<open>i\<close>
    executes calls \<open>Convert\<close>, reads \<open>results\<close>, writes \<open>results\<close>, returns;
  \<^item> \<open>MRecv i\<close>: the draining loop receives the value worker \<open>i\<close> is sending and appends it
    to \<open>errors\<close> when it is not nil;
  \<^item> \<open>MFinish\<close>: the draining loop finds the results channel closed; the counts are
    computed and \<open>ConvertBatch\<close> returns.
\<close>

datatype bevent =
    DoSubmit nat
  | DoStopClose
  | DoStopWait
  | WSelect nat
  | WLeave nat
  | JConvert nat
  | JRead nat
  | JStore nat
  | JReturn nat
  | MRecv nat
  | MFinish

definition with_pool :: "string event \<Rightarrow> batch \<Rightarrow> batch option" where
  "with_pool ev s =
     (case pool_step ev (pool s) of None \<Rightarrow> None | Some p \<Rightarrow> Some (s\<lparr>pool := p\<rparr>))"

definition set_pc :: "nat \<Rightarrow> jobpc \<Rightarrow> batch \<Rightarrow> batch" where
  "set_pc i pc s = s\<lparr>pcs := (pcs s)[i := pc]\<rparr>"

text \<open>The input of the job that worker \<open>i\<close> is executing, if it is executing one.\<close>

definition running_input :: "nat \<Rightarrow> batch \<Rightarrow> string option" where
  "running_input i s =
     (if i < length (ws (pool s)) \<and> i < length (pcs s) then
        (case ws (pool s) ! i of Running input \<Rightarrow> Some input | _ \<Rightarrow> None)
      else None)"

fun batch_step :: "env \<Rightarrow> Options \<Rightarrow> bevent \<Rightarrow> batch \<Rightarrow> batch option" where
  "batch_step E opts (DoSubmit i) s =
     (case todo s of
        [] \<Rightarrow> None
      | input # rest \<Rightarrow>
          (case with_pool (Submit i input) s of
             None \<Rightarrow> None
           | Some s \<Rightarrow> Some (s\<lparr>todo := rest\<rparr>)))"
| "batch_step E opts DoStopClose s =
     (if todo s = [] then with_pool CloseJobs s else None)"
| "batch_step E opts DoStopWait s = with_pool CloseResults s"
| "batch_step E opts (WSelect i) s =
     (case with_pool (Select i) s of
        None \<Rightarrow> None
      | Some s \<Rightarrow> if cancelled (pool s) then Some s else Some (set_pc i AtConvert s))"
| "batch_step E opts (WLeave i) s = with_pool (Leave i) s"
| "batch_step E opts (JConvert i) s =
     (case running_input i s of
        None \<Rightarrow> None
      | Some input \<Rightarrow>
          (case pcs s ! i of
             AtConvert \<Rightarrow>
               let ((result, err), c, w) = Convert E (conv s) (sys s) input opts
               in Some (set_pc i (AtAppend result err) (s\<lparr>conv := c, sys := w\<rparr>))
           | _ \<Rightarrow> None))"
| "batch_step E opts (JRead i) s =
     (case running_input i s of
        None \<Rightarrow> None
      | Some input \<Rightarrow>
          (case pcs s ! i of
             AtAppend result err \<Rightarrow> Some (set_pc i (AtStore result err (res_len s)) s)
           | _ \<Rightarrow> None))"
| "batch_step E opts (JStore i) s =
     (case running_input i s of
        None \<Rightarrow> None
      | Some input \<Rightarrow>
          (case pcs s ! i of
             AtStore result err n \<Rightarrow> Some (set_pc i (AtReturn err) (store_result n result s))
           | _ \<Rightarrow> None))"
| "batch_step E opts (JReturn i) s =
     (case running_input i s of
        None \<Rightarrow> None
      | Some input \<Rightarrow>
          (case pcs s ! i of
             AtReturn err \<Rightarrow>
               (case with_pool (Return i err) s of
                  None \<Rightarrow> None
                | Some s \<Rightarrow> Some (set_pc i NoJob (s\<lparr>job_errors := job_errors s @ [err]\<rparr>)))
           | _ \<Rightarrow> None))"
| "batch_step E opts (MRecv i) s =
     (if returned s = None \<and> i < length (ws (pool s)) then
        (case with_pool (Deliver i) s of
           None \<Rightarrow> None
         | Some s \<Rightarrow>
             (case last (delivered (pool s)) of
                None \<Rightarrow> Some s
              | Some err \<Rightarrow> Some (s\<lparr>errors := errors s @ [err]\<rparr>)))
      else None)"
| "batch_step E opts MFinish s =
     (if returned s = None \<and> results_closed (pool s) then
        (let results = take (res_len s) (res_arr s)
         in case count_results results (0, 0, 0) of
              None \<Rightarrow> None
            | Some c \<Rightarrow>
                Some (s\<lparr>counts := Some c, returned := Some (results, batch_error (errors s))\<rparr>))
      else None)"

fun batch_run :: "env \<Rightarrow> Options \<Rightarrow> bevent list \<Rightarrow> batch \<Rightarrow> batch option" where
  "batch_run E opts [] s = Some s"
| "batch_run E opts (ev # evs) s =
     (case batch_step E opts ev s of None \<Rightarrow> None | Some s' \<Rightarrow> batch_run E opts evs s')"

text \<open>
  \<open>ConvertBatch\<close> under a schedule of its goroutines: the value it returns, when the
  schedule can run and ends with \<open>ConvertBatch\<close> having returned. An empty input list is
  rejected before anything is started (the nil slice is the empty list).
\<close>

definition ConvertBatch ::
  "env \<Rightarrow> MP4Converter \<Rightarrow> world \<Rightarrow> string list \<Rightarrow> Options \<Rightarrow> bevent list
     \<Rightarrow> (Result option list \<times> error option) option" where
  "ConvertBatch E c w inputs opts evs =
     (if length inputs = 0 then Some ([], Some NoInputFiles)
      else
        (case batch_run E opts evs (batch_init E c w inputs opts) of
           None \<Rightarrow> None
         | Some s \<Rightarrow> returned s))"

section \<open>Example inputs\<close>

text \<open>
  A small world for evaluating the definitions: three files, an encoder that writes its
  last argument, an \<open>os.MkdirAll\<close> that succeeds, and options with everything off.
\<close>

definition example_env :: env where
  "example_env =
     \<lparr>mkdir_all = (\<lambda>dir fs. (fs, None)),
      run_cmd = (\<lambda>bin args fs. (fs(last args \<mapsto> \<lparr>IsDir = False, Size = 1\<rparr>), [], None)),
      NumCPU = 4\<rparr>"

definition example_files :: "string \<rightharpoonup> FileInfo" where
  "example_files =
     [''a.mov'' \<mapsto> \<lparr>IsDir = False, Size = 10\<rparr>,
      ''a.mp4'' \<mapsto> \<lparr>IsDir = False, Size = 7\<rparr>,
      ''b.mov'' \<mapsto> \<lparr>IsDir = False, Size = 20\<rparr>]"

definition example_world :: "string option \<Rightarrow> world" where
  "example_world p = \<lparr>files = example_files, ffmpeg_in_PATH = p, effects = []\<rparr>"

definition example_opts :: Options where
  "example_opts =
     \<lparr>OutputDir = [], Workers = 2, SkipExisting = False, DryRun = False, Verbose = False,
      FlatStructure = False, ShowProgress = False\<rparr>"

section \<open>Properties of the path rule\<close>

lemma ext_scan_char:
  "ext_scan r acc =
     (let seg = takeWhile (\<lambda>c. \<not> IsPathSeparator c) r
      in if CHR ''.'' \<in> set seg then CHR ''.'' # rev (takeWhile (\<lambda>c. c \<noteq> CHR ''.'') seg) @ acc
         else [])"
  by (induction r acc rule: ext_scan.induct) (auto simp: Let_def IsPathSeparator_def)

lemma rev_split_at_dot:
  assumes "CHR ''.'' \<in> set seg"
  shows "\<exists>stem. rev seg = stem @ CHR ''.'' # rev (takeWhile (\<lambda>c. c \<noteq> CHR ''.'') seg)"
proof -
  have "seg = takeWhile (\<lambda>c. c \<noteq> CHR ''.'') seg @ dropWhile (\<lambda>c. c \<noteq> CHR ''.'') seg"
    by simp
  moreover from assms have "dropWhile (\<lambda>c. c \<noteq> CHR ''.'') seg \<noteq> []"
    by (simp add: dropWhile_eq_Nil_conv)
  moreover from assms have "hd (dropWhile (\<lambda>c. c \<noteq> CHR ''.'') seg) = CHR ''.''"
    using hd_dropWhile[of "\<lambda>c. c \<noteq> CHR ''.''" seg] calculation(2) by auto
  ultimately obtain rest where
    "seg = takeWhile (\<lambda>c. c \<noteq> CHR ''.'') seg @ CHR ''.'' # rest"
    by (metis list.collapse)
  then have "rev seg = rev rest @ CHR ''.'' # rev (takeWhile (\<lambda>c. c \<noteq> CHR ''.'') seg)"
    by (metis append.assoc append_Cons append_Nil rev.simps(2) rev_append)
  then show ?thesis by blast
qed

lemma Base_Ext_split: "\<exists>stem. Base path = stem @ Ext path"
proof (cases "path = [] \<or> IsPathSeparator (last path)")
  case True
  then have "Ext path = []"
    by (cases path rule: rev_cases) (auto simp: Ext_def)
  then show ?thesis by simp
next
  case False
  then have ne: "path \<noteq> []" and nl: "\<not> IsPathSeparator (last path)" by auto
  define seg where "seg = takeWhile (\<lambda>c. \<not> IsPathSeparator c) (rev path)"
  from ne nl have drop: "dropWhile IsPathSeparator (rev path) = rev path"
    by (cases path rule: rev_cases) auto
  from ne nl have segne: "seg \<noteq> []"
    unfolding seg_def by (cases path rule: rev_cases) auto
  have base: "Base path = rev seg"
    using ne segne by (simp add: Base_def Let_def drop seg_def)
  show ?thesis
  proof (cases "CHR ''.'' \<in> set seg")
    case True
    then have "Ext path = CHR ''.'' # rev (takeWhile (\<lambda>c. c \<noteq> CHR ''.'') seg)"
      by (simp add: Ext_def ext_scan_char seg_def Let_def)
    with rev_split_at_dot[OF True] base show ?thesis by auto
  next
    case False
    then have "Ext path = []"
      by (simp add: Ext_def ext_scan_char seg_def Let_def)
    then show ?thesis by simp
  qed
qed

lemma TrimSuffix_append: "TrimSuffix (stem @ suf) suf = stem"
  by (simp add: TrimSuffix_def HasSuffix_def)

lemma Base_TrimSuffix_Ext: "Base path = TrimSuffix (Base path) (Ext path) @ Ext path"
proof -
  obtain stem where "Base path = stem @ Ext path" using Base_Ext_split by blast
  then show ?thesis by (metis TrimSuffix_append)
qed

text \<open>
  Claim C5. For every input path and options snapshot the resolved output path is, when
  \<open>OutputDir\<close> is empty, the input's directory joined with the output name, and when
  \<open>OutputDir\<close> is set, \<open>OutputDir\<close> joined with the output name; the flat-structure and
  the preserve-structure modes give the same path. The output name is the input's base name
  with the input's extension replaced by the converter's output extension \<open>.mp4\<close>: the base
  name is the trimmed name followed by the extension, and the output name is the trimmed
  name followed by \<open>.mp4\<close>.
\<close>

theorem determineOutputPath_rule:
  "determineOutputPath input opts =
     (if OutputDir opts = []
      then Join [Dir input, TrimSuffix (Base input) (Ext input) @ OutputExtension]
      else Join [OutputDir opts, TrimSuffix (Base input) (Ext input) @ OutputExtension])
   \<and> determineOutputPath input (opts\<lparr>FlatStructure := True\<rparr>)
       = determineOutputPath input (opts\<lparr>FlatStructure := False\<rparr>)
   \<and> Base input = TrimSuffix (Base input) (Ext input) @ Ext input
   \<and> OutputExtension = ''.mp4''"
  using Base_TrimSuffix_Ext[of input]
  by (simp add: determineOutputPath_def Let_def OutputExtension_def)

section \<open>Properties of the encoder arguments\<close>

lemma args_hwaccel_ext: "\<exists>s. args_hwaccel opts args = args @ s"
  by (simp add: args_hwaccel_def Let_def)

lemma args_video_codec_ext: "\<exists>s. args_video_codec opts args = args @ s"
  by (simp add: args_video_codec_def Let_def)

lemma args_quality_ext: "\<exists>s. args_quality opts args = args @ s"
  by (simp add: args_quality_def)

lemma args_preset_ext: "\<exists>s. args_preset opts args = args @ s"
  by (simp add: args_preset_def)

lemma args_bitrate_ext: "\<exists>s. args_bitrate opts args = args @ s"
  by (simp add: args_bitrate_def)

lemma args_audio_ext: "\<exists>s. args_audio opts args = args @ s"
  by (simp add: args_audio_def Let_def)

lemma args_extra_ext: "\<exists>s. args_extra opts args = args @ s"
  by (simp add: args_extra_def)

lemma buildArgs_shape:
  "\<exists>mid. buildArgs input output opts = ''-y'' # mid @ [output]"
proof -
  obtain s1 where 1: "args_hwaccel opts [''-y''] = [''-y''] @ s1"
    using args_hwaccel_ext by blast
  obtain s2 where 2: "args_video_codec opts (([''-y''] @ s1) @ [''-i'', input])
      = (([''-y''] @ s1) @ [''-i'', input]) @ s2"
    using args_video_codec_ext by blast
  obtain s3 where 3: "args_quality opts ((([''-y''] @ s1) @ [''-i'', input]) @ s2)
      = ((([''-y''] @ s1) @ [''-i'', input]) @ s2) @ s3"
    using args_quality_ext by blast
  obtain s4 where 4: "args_preset opts (((([''-y''] @ s1) @ [''-i'', input]) @ s2) @ s3)
      = (((([''-y''] @ s1) @ [''-i'', input]) @ s2) @ s3) @ s4"
    using args_preset_ext by blast
  obtain s5 where 5: "args_bitrate opts ((((([''-y''] @ s1) @ [''-i'', input]) @ s2) @ s3) @ s4)
      = ((((([''-y''] @ s1) @ [''-i'', input]) @ s2) @ s3) @ s4) @ s5"
    using args_bitrate_ext by blast
  obtain s6 where 6: "args_audio opts (((((([''-y''] @ s1) @ [''-i'', input]) @ s2) @ s3) @ s4) @ s5)
      = (((((([''-y''] @ s1) @ [''-i'', input]) @ s2) @ s3) @ s4) @ s5) @ s6"
    using args_audio_ext by blast
  obtain s7 where 7: "args_extra opts ((((((([''-y''] @ s1) @ [''-i'', input]) @ s2) @ s3) @ s4) @ s5) @ s6)
      = ((((((([''-y''] @ s1) @ [''-i'', input]) @ s2) @ s3) @ s4) @ s5) @ s6) @ s7"
    using args_extra_ext by blast
  have "buildArgs input output opts
      = ''-y'' # (s1 @ [''-i'', input] @ s2 @ s3 @ s4 @ s5 @ s6 @ s7) @ [output]"
    unfolding buildArgs_def Let_def 1 2 3 4 5 6 7 by simp
  then show ?thesis by blast
qed

lemma buildArgs_begins_y: "buildArgs input output opts = ''-y'' # tl (buildArgs input output opts)"
  using buildArgs_shape[of input "output" opts] by auto

lemma buildArgs_ends_output: "last (buildArgs input output opts) = output"
  using buildArgs_shape[of input "output" opts] by auto


section \<open>Properties of Convert\<close>

lemma FFmpeg_Convert_effects:
  "effects (snd (FFmpeg_Convert E f input output opts w))
     = effects w @ [EvRun (binaryPath f) (buildArgs input output opts)]"
  by (simp add: FFmpeg_Convert_def Let_def split: prod.splits)

lemma os_MkdirAll_effects:
  "effects (snd (os_MkdirAll E dir w)) = effects w @ [EvMkdirAll dir]"
  by (simp add: os_MkdirAll_def Let_def split: prod.splits)

lemma convert_run_effects:
  "effects (snd (convert_run E c ff w input output opts result)) =
     effects w @ (if fst (os_MkdirAll E (Dir output) w) = None
       then [EvMkdirAll (Dir output),
             EvRun (binaryPath ff) (buildArgs input output (ffmpegOpts_of (options c) opts))]
       else [EvMkdirAll (Dir output)])"
proof (cases "os_MkdirAll E (Dir output) w")
  case (Pair err w1)
  have e1: "effects w1 = effects w @ [EvMkdirAll (Dir output)]"
    using os_MkdirAll_effects[of E "Dir output" w] Pair by simp
  show ?thesis
  proof (cases err)
    case None
    obtain fr e w2 where
      fc: "FFmpeg_Convert E ff input output (ffmpegOpts_of (options c) opts) w1 = ((fr, e), w2)"
      by (metis surj_pair)
    have e2: "effects w2 = effects w1
        @ [EvRun (binaryPath ff) (buildArgs input output (ffmpegOpts_of (options c) opts))]"
      using FFmpeg_Convert_effects[of E ff input "output" "ffmpegOpts_of (options c) opts" w1] fc
      by simp
    show ?thesis using Pair None fc e1 e2
      by (cases e) (simp_all add: convert_run_def Let_def)
  next
    case (Some a)
    then show ?thesis using Pair e1 by (simp add: convert_run_def)
  qed
qed

lemma Convert_invalid:
  "Validate w input = Some err \<Longrightarrow>
   Convert E c w input opts = ((new_Result input\<lparr>Error := Some err\<rparr>, Some err), c, w)"
  by (simp add: Convert_def)

lemma Convert_no_ffmpeg:
  "Validate w input = None \<Longrightarrow> init_ffmpeg c w = Inl err \<Longrightarrow>
   Convert E c w input opts = ((new_Result input\<lparr>Error := Some err\<rparr>, Some err), c, w)"
  by (simp add: Convert_def)

lemma Convert_skipped:
  "Validate w input = None \<Longrightarrow> init_ffmpeg c w = Inr ff \<Longrightarrow> SkipExisting opts \<Longrightarrow>
   files w (determineOutputPath input opts) \<noteq> None \<Longrightarrow>
   Convert E c w input opts =
     ((new_Result input\<lparr>Output := determineOutputPath input opts, Skipped := True,
         SkipReason := ''file already exists''\<rparr>, None), c\<lparr>ffmpeg := Some ff\<rparr>, w)"
  by (auto simp: Convert_def os_Stat_def Let_def)

lemma Convert_dry:
  "Validate w input = None \<Longrightarrow> init_ffmpeg c w = Inr ff \<Longrightarrow>
   \<not> (SkipExisting opts \<and> files w (determineOutputPath input opts) \<noteq> None) \<Longrightarrow> DryRun opts \<Longrightarrow>
   Convert E c w input opts =
     ((with_input_size w input (new_Result input\<lparr>Output := determineOutputPath input opts\<rparr>)
         \<lparr>Success := True\<rparr>, None),
      c\<lparr>ffmpeg := Some ff\<rparr>, w)"
  by (auto simp: Convert_def os_Stat_def Let_def)

lemma Convert_runs:
  "Validate w input = None \<Longrightarrow> init_ffmpeg c w = Inr ff \<Longrightarrow>
   \<not> (SkipExisting opts \<and> files w (determineOutputPath input opts) \<noteq> None) \<Longrightarrow> \<not> DryRun opts \<Longrightarrow>
   Convert E c w input opts =
     (fst (convert_run E (c\<lparr>ffmpeg := Some ff\<rparr>) ff w input (determineOutputPath input opts) opts
         (with_input_size w input (new_Result input\<lparr>Output := determineOutputPath input opts\<rparr>))),
      c\<lparr>ffmpeg := Some ff\<rparr>,
      snd (convert_run E (c\<lparr>ffmpeg := Some ff\<rparr>) ff w input (determineOutputPath input opts) opts
         (with_input_size w input (new_Result input\<lparr>Output := determineOutputPath input opts\<rparr>))))"
  by (auto simp: Convert_def os_Stat_def Let_def split: prod.splits)

lemma with_input_size_flags:
  "Success (with_input_size w input r) = Success r"
  "Skipped (with_input_size w input r) = Skipped r"
  by (simp_all add: with_input_size_def split: sum.splits)

lemma Convert_dry_world: "DryRun opts \<Longrightarrow> snd (snd (Convert E c w input opts)) = w"
  by (simp add: Convert_def Let_def split: option.splits sum.splits)

subsection \<open>The example world, evaluated\<close>

lemma example_Validate: "Validate (example_world p) ''a.mov'' = None"
  by (simp add: Validate_def os_Stat_def example_world_def example_files_def Ext_def
      IsPathSeparator_def ToLower_def toLowerChar_def SupportedInputs_def)

lemma example_output:
  "determineOutputPath ''a.mov'' (example_opts\<lparr>SkipExisting := s, DryRun := d\<rparr>) = ''a.mp4''"
  by (simp add: determineOutputPath_def example_opts_def Base_def Ext_def IsPathSeparator_def
      TrimSuffix_def HasSuffix_def OutputExtension_def Join_def Dir_def Clean_def Let_def)

lemma example_output_exists: "files (example_world p) ''a.mp4'' \<noteq> None"
  by (simp add: example_world_def example_files_def)

lemma example_ffmpeg_found:
  "init_ffmpeg NewMP4Converter (example_world (Some ''/usr/bin/ffmpeg''))
     = Inr \<lparr>binaryPath = ''/usr/bin/ffmpeg''\<rparr>"
  by (simp add: init_ffmpeg_def NewMP4Converter_def NewFFmpeg_def exec_LookPath_def
      example_world_def)

lemma example_ffmpeg_missing:
  "init_ffmpeg NewMP4Converter (example_world None) = Inl (FFmpegNotFound (OsError ''ffmpeg''))"
  by (simp add: init_ffmpeg_def NewMP4Converter_def NewFFmpeg_def exec_LookPath_def
      example_world_def)

lemma example_flags:
  "SkipExisting (example_opts\<lparr>SkipExisting := s, DryRun := d\<rparr>) = s"
  "DryRun (example_opts\<lparr>SkipExisting := s, DryRun := d\<rparr>) = d"
  by simp_all

subsection \<open>Skipping existing outputs\<close>

text \<open>
  Claim C6, as amended. For every validated input whose resolved output path already exists
  (its \<open>os.Stat\<close> succeeds), with the skip-existing option enabled, and for which the ffmpeg
  wrapper is available (already created, or found in the PATH), \<open>Convert\<close> returns a nil
  error and a Result with \<open>Skipped\<close> set and a non-empty \<open>SkipReason\<close>, and leaves the world
  as it was: the encoder is not run and nothing is written.
\<close>

theorem Convert_skip_existing:
  "Validate w input = None \<Longrightarrow> SkipExisting opts \<Longrightarrow>
   files w (determineOutputPath input opts) \<noteq> None \<Longrightarrow> init_ffmpeg c w = Inr ff \<Longrightarrow>
   (\<exists>r. Convert E c w input opts = ((r, None), c\<lparr>ffmpeg := Some ff\<rparr>, w)
       \<and> Skipped r \<and> SkipReason r \<noteq> [] \<and> \<not> Success r)"
  by (simp add: Convert_skipped new_Result_def)

theorem Convert_skip_existing_witness:
  "Validate (example_world (Some ''/usr/bin/ffmpeg'')) ''a.mov'' = None
   \<and> SkipExisting (example_opts\<lparr>SkipExisting := True, DryRun := False\<rparr>)
   \<and> files (example_world (Some ''/usr/bin/ffmpeg''))
        (determineOutputPath ''a.mov'' (example_opts\<lparr>SkipExisting := True, DryRun := False\<rparr>))
      \<noteq> None
   \<and> init_ffmpeg NewMP4Converter (example_world (Some ''/usr/bin/ffmpeg''))
      = Inr \<lparr>binaryPath = ''/usr/bin/ffmpeg''\<rparr>
   \<and> (\<exists>r. Convert example_env NewMP4Converter (example_world (Some ''/usr/bin/ffmpeg'')) ''a.mov''
             (example_opts\<lparr>SkipExisting := True, DryRun := False\<rparr>)
           = ((r, None), NewMP4Converter\<lparr>ffmpeg := Some \<lparr>binaryPath = ''/usr/bin/ffmpeg''\<rparr>\<rparr>,
              example_world (Some ''/usr/bin/ffmpeg''))
         \<and> Skipped r \<and> SkipReason r \<noteq> [] \<and> \<not> Success r)"
proof -
  let ?w = "example_world (Some ''/usr/bin/ffmpeg'')"
  let ?o = "example_opts\<lparr>SkipExisting := True, DryRun := False\<rparr>"
  have v: "Validate ?w ''a.mov'' = None" by (rule example_Validate)
  have s: "SkipExisting ?o" by simp
  have x: "files ?w (determineOutputPath ''a.mov'' ?o) \<noteq> None"
    by (simp only: example_output example_output_exists not_False_eq_True)
  have f: "init_ffmpeg NewMP4Converter ?w = Inr \<lparr>binaryPath = ''/usr/bin/ffmpeg''\<rparr>"
    by (rule example_ffmpeg_found)
  from Convert_skip_existing[OF v s x f, of example_env] v s x f show ?thesis by blast
qed

text \<open>
  The claim as stated fails where the encoder binary is missing: the input is valid, the
  output exists and skip-existing is enabled, and the Result is not marked skipped (it
  carries the error of the failed lookup).
\<close>

theorem Convert_skip_existing_counterexample:
  "Validate (example_world None) ''a.mov'' = None
   \<and> SkipExisting (example_opts\<lparr>SkipExisting := True, DryRun := False\<rparr>)
   \<and> files (example_world None)
        (determineOutputPath ''a.mov'' (example_opts\<lparr>SkipExisting := True, DryRun := False\<rparr>))
      \<noteq> None
   \<and> \<not> Skipped (fst (fst (Convert example_env NewMP4Converter (example_world None) ''a.mov''
                              (example_opts\<lparr>SkipExisting := True, DryRun := False\<rparr>))))"
  by (simp add: example_Validate example_output example_output_exists
      Convert_no_ffmpeg[OF example_Validate example_ffmpeg_missing] new_Result_def)

subsection \<open>Dry run\<close>

text \<open>
  Claim C7, as amended. For every input processed with the dry-run option enabled the world
  is left as it was: no \<open>os.MkdirAll\<close>, no run of the encoder, no change to the file system.
  Every input that passes validation, for which the ffmpeg wrapper is available (already
  created, or found in the PATH) and which is not skipped (skip-existing enabled and the
  output present), yields a nil error and a Result with \<open>Success\<close> set.
\<close>

theorem Convert_dry_run:
  "DryRun opts \<Longrightarrow>
   snd (snd (Convert E c w input opts)) = w
   \<and> (Validate w input = None \<and> init_ffmpeg c w = Inr ff
        \<and> \<not> (SkipExisting opts \<and> files w (determineOutputPath input opts) \<noteq> None)
      \<longrightarrow> Success (fst (fst (Convert E c w input opts)))
          \<and> snd (fst (Convert E c w input opts)) = None)"
  by (simp add: Convert_dry_world Convert_dry)

theorem Convert_dry_run_witness:
  "DryRun (example_opts\<lparr>SkipExisting := False, DryRun := True\<rparr>)
   \<and> Validate (example_world (Some ''/usr/bin/ffmpeg'')) ''a.mov'' = None
   \<and> init_ffmpeg NewMP4Converter (example_world (Some ''/usr/bin/ffmpeg''))
      = Inr \<lparr>binaryPath = ''/usr/bin/ffmpeg''\<rparr>
   \<and> \<not> SkipExisting (example_opts\<lparr>SkipExisting := False, DryRun := True\<rparr>)
   \<and> snd (snd (Convert example_env NewMP4Converter (example_world (Some ''/usr/bin/ffmpeg''))
                 ''a.mov'' (example_opts\<lparr>SkipExisting := False, DryRun := True\<rparr>)))
      = example_world (Some ''/usr/bin/ffmpeg'')
   \<and> Success (fst (fst (Convert example_env NewMP4Converter
                 (example_world (Some ''/usr/bin/ffmpeg'')) ''a.mov''
                 (example_opts\<lparr>SkipExisting := False, DryRun := True\<rparr>))))
   \<and> snd (fst (Convert example_env NewMP4Converter (example_world (Some ''/usr/bin/ffmpeg''))
                 ''a.mov'' (example_opts\<lparr>SkipExisting := False, DryRun := True\<rparr>))) = None"
proof -
  let ?w = "example_world (Some ''/usr/bin/ffmpeg'')"
  let ?o = "example_opts\<lparr>SkipExisting := False, DryRun := True\<rparr>"
  have d: "DryRun ?o" by simp
  have v: "Validate ?w ''a.mov'' = None" by (rule example_Validate)
  have f: "init_ffmpeg NewMP4Converter ?w = Inr \<lparr>binaryPath = ''/usr/bin/ffmpeg''\<rparr>"
    by (rule example_ffmpeg_found)
  have s: "\<not> SkipExisting ?o" by simp
  from Convert_dry_run[OF d, of example_env NewMP4Converter ?w "''a.mov''"
      "\<lparr>binaryPath = ''/usr/bin/ffmpeg''\<rparr>"] d v f s
  show ?thesis by blast
qed

text \<open>
  The claim as stated fails in two ways. With the encoder binary missing, a valid input in a
  dry run gets a failed Result; and with skip-existing enabled and the output present, a
  valid input in a dry run gets a skipped Result, whose \<open>Success\<close> flag is not set.
\<close>

theorem Convert_dry_run_counterexample:
  "DryRun (example_opts\<lparr>SkipExisting := False, DryRun := True\<rparr>)
   \<and> Validate (example_world None) ''a.mov'' = None
   \<and> \<not> Success (fst (fst (Convert example_env NewMP4Converter (example_world None) ''a.mov''
                              (example_opts\<lparr>SkipExisting := False, DryRun := True\<rparr>))))
   \<and> DryRun (example_opts\<lparr>SkipExisting := True, DryRun := True\<rparr>)
   \<and> Validate (example_world (Some ''/usr/bin/ffmpeg'')) ''a.mov'' = None
   \<and> \<not> Success (fst (fst (Convert example_env NewMP4Converter
                              (example_world (Some ''/usr/bin/ffmpeg'')) ''a.mov''
                              (example_opts\<lparr>SkipExisting := True, DryRun := True\<rparr>))))"
proof -
  have "files (example_world (Some ''/usr/bin/ffmpeg''))
          (determineOutputPath ''a.mov'' (example_opts\<lparr>SkipExisting := True, DryRun := True\<rparr>))
        \<noteq> None"
    by (simp only: example_output example_output_exists not_False_eq_True)
  then show ?thesis
    by (simp add: example_Validate Convert_no_ffmpeg[OF example_Validate example_ffmpeg_missing]
        Convert_skipped[OF example_Validate example_ffmpeg_found] new_Result_def)
qed

subsection \<open>Overwriting\<close>

text \<open>
  Claim C10. The argument list built for the external tool begins with \<open>-y\<close> (and ends with
  the output path), and every run of the encoder by \<open>FFmpeg.Convert\<close> passes that list.
  When neither skip-existing nor dry-run is enabled, a validated input whose output
  directory could be created is encoded, whether or not a file already stands at the
  resolved output path: \<open>Convert\<close> runs the encoder once, with \<open>-y\<close> first and the output
  path last, so the encoder is told to overwrite instead of asking or failing.
\<close>

theorem encoder_overwrite_flag:
  "buildArgs input output fo = ''-y'' # tl (buildArgs input output fo)
   \<and> effects (snd (FFmpeg_Convert E f input output fo w))
       = effects w @ [EvRun (binaryPath f) (''-y'' # tl (buildArgs input output fo))]
   \<and> (Validate w input = None \<and> init_ffmpeg c w = Inr ff
        \<and> \<not> SkipExisting opts \<and> \<not> DryRun opts
        \<and> fst (os_MkdirAll E (Dir (determineOutputPath input opts)) w) = None
      \<longrightarrow> effects (snd (snd (Convert E c w input opts)))
            = effects w @
              [EvMkdirAll (Dir (determineOutputPath input opts)),
               EvRun (binaryPath ff)
                 (''-y'' # tl (buildArgs input (determineOutputPath input opts)
                                 (ffmpegOpts_of (options c) opts)))]
          \<and> last (buildArgs input (determineOutputPath input opts)
                     (ffmpegOpts_of (options c) opts))
            = determineOutputPath input opts)"
proof -
  have a: "buildArgs input output fo = ''-y'' # tl (buildArgs input output fo)"
    by (rule buildArgs_begins_y)
  have b: "effects (snd (FFmpeg_Convert E f input output fo w))
       = effects w @ [EvRun (binaryPath f) (''-y'' # tl (buildArgs input output fo))]"
    using FFmpeg_Convert_effects[of E f input "output" fo w] a by simp
  have c: "effects (snd (snd (Convert E c w input opts)))
            = effects w @
              [EvMkdirAll (Dir (determineOutputPath input opts)),
               EvRun (binaryPath ff)
                 (''-y'' # tl (buildArgs input (determineOutputPath input opts)
                                 (ffmpegOpts_of (options c) opts)))]"
    if "Validate w input = None" "init_ffmpeg c w = Inr ff" "\<not> SkipExisting opts"
      "\<not> DryRun opts" "fst (os_MkdirAll E (Dir (determineOutputPath input opts)) w) = None"
  proof -
    have "effects (snd (snd (Convert E c w input opts)))
            = effects w @
              [EvMkdirAll (Dir (determineOutputPath input opts)),
               EvRun (binaryPath ff)
                 (buildArgs input (determineOutputPath input opts)
                    (ffmpegOpts_of (options c) opts))]"
      using that by (simp add: Convert_runs convert_run_effects)
    then show ?thesis
      using buildArgs_begins_y[of input "determineOutputPath input opts"
          "ffmpegOpts_of (options c) opts"] by simp
  qed
  show ?thesis using a b c buildArgs_ends_output by blast
qed

theorem encoder_overwrite_flag_witness:
  "files (example_world (Some ''/usr/bin/ffmpeg''))
     (determineOutputPath ''a.mov'' (example_opts\<lparr>SkipExisting := False, DryRun := False\<rparr>))
     \<noteq> None
   \<and> Validate (example_world (Some ''/usr/bin/ffmpeg'')) ''a.mov'' = None
   \<and> init_ffmpeg NewMP4Converter (example_world (Some ''/usr/bin/ffmpeg''))
      = Inr \<lparr>binaryPath = ''/usr/bin/ffmpeg''\<rparr>
   \<and> \<not> SkipExisting (example_opts\<lparr>SkipExisting := False, DryRun := False\<rparr>)
   \<and> \<not> DryRun (example_opts\<lparr>SkipExisting := False, DryRun := False\<rparr>)
   \<and> fst (os_MkdirAll example_env
            (Dir (determineOutputPath ''a.mov''
                    (example_opts\<lparr>SkipExisting := False, DryRun := False\<rparr>)))
            (example_world (Some ''/usr/bin/ffmpeg''))) = None
   \<and> effects (snd (snd (Convert example_env NewMP4Converter
                 (example_world (Some ''/usr/bin/ffmpeg'')) ''a.mov''
                 (example_opts\<lparr>SkipExisting := False, DryRun := False\<rparr>))))
      = [EvMkdirAll ''.'',
         EvRun ''/usr/bin/ffmpeg''
           [''-y'', ''-i'', ''a.mov'', ''-c:v'', ''h264'', ''-crf'', ''23'', ''-preset'', ''medium'',
            ''-c:a'', ''aac'', ''-b:a'', ''192k'', ''a.mp4'']]"
proof -
  let ?w = "example_world (Some ''/usr/bin/ffmpeg'')"
  let ?o = "example_opts\<lparr>SkipExisting := False, DryRun := False\<rparr>"
  have x: "files ?w (determineOutputPath ''a.mov'' ?o) \<noteq> None"
    by (simp only: example_output example_output_exists not_False_eq_True)
  have v: "Validate ?w ''a.mov'' = None" by (rule example_Validate)
  have f: "init_ffmpeg NewMP4Converter ?w = Inr \<lparr>binaryPath = ''/usr/bin/ffmpeg''\<rparr>"
    by (rule example_ffmpeg_found)
  have s: "\<not> SkipExisting ?o" and d: "\<not> DryRun ?o" by simp_all
  have m: "fst (os_MkdirAll example_env (Dir (determineOutputPath ''a.mov'' ?o)) ?w) = None"
    by (simp add: os_MkdirAll_def example_env_def)
  have dir: "Dir ''a.mp4'' = ''.''"
    by (simp add: Dir_def Clean_def IsPathSeparator_def)
  have args: "buildArgs ''a.mov'' ''a.mp4'' (ffmpegOpts_of (options NewMP4Converter) ?o)
      = [''-y'', ''-i'', ''a.mov'', ''-c:v'', ''h264'', ''-crf'', ''23'', ''-preset'', ''medium'',
         ''-c:a'', ''aac'', ''-b:a'', ''192k'', ''a.mp4'']"
    by (simp add: buildArgs_def args_hwaccel_def args_video_codec_def args_quality_def
        args_preset_def args_bitrate_def args_audio_def args_extra_def Let_def
        ffmpegOpts_of_def NewMP4Converter_def DefaultMP4Options_def HasPrefix_def
        Sprintf_d_def digits10.simps)
  have e: "effects ?w = []" by (simp add: example_world_def)
  from encoder_overwrite_flag[of "''a.mov''" "''a.mp4''"
      "ffmpegOpts_of (options NewMP4Converter) ?o" example_env
      "\<lparr>binaryPath = ''/usr/bin/ffmpeg''\<rparr>" ?w NewMP4Converter
      "\<lparr>binaryPath = ''/usr/bin/ffmpeg''\<rparr>" ?o] v f s d m
  have "effects (snd (snd (Convert example_env NewMP4Converter ?w ''a.mov'' ?o)))
            = effects ?w @
              [EvMkdirAll (Dir (determineOutputPath ''a.mov'' ?o)),
               EvRun (binaryPath \<lparr>binaryPath = ''/usr/bin/ffmpeg''\<rparr>)
                 (''-y'' # tl (buildArgs ''a.mov'' (determineOutputPath ''a.mov'' ?o)
                                 (ffmpegOpts_of (options NewMP4Converter) ?o)))]"
    by blast
  then have "effects (snd (snd (Convert example_env NewMP4Converter ?w ''a.mov'' ?o)))
      = [EvMkdirAll ''.'',
         EvRun ''/usr/bin/ffmpeg''
           [''-y'', ''-i'', ''a.mov'', ''-c:v'', ''h264'', ''-crf'', ''23'', ''-preset'', ''medium'',
            ''-c:a'', ''aac'', ''-b:a'', ''192k'', ''a.mp4'']]"
    by (simp only: example_output dir args e append_Nil list.sel FFmpeg.simps)
  with x v f s d m show ?thesis by blast
qed

section \<open>Properties of the worker pool\<close>

subsection \<open>Invariants\<close>

lemma filter_update_count:
  "i < length xs \<Longrightarrow>
   length (filter P (xs[i := y])) + (if P (xs ! i) then 1 else 0)
     = length (filter P xs) + (if P y then 1 else 0)"
proof (induction xs arbitrary: i)
  case Nil
  then show ?case by simp
next
  case (Cons x xs)
  then show ?case by (cases i) auto
qed

lemma live_all: "(live p = length (ws p)) = (Exited \<notin> set (ws p))"
proof -
  have "(length (filter is_live xs) = length xs) = (Exited \<notin> set xs)" for xs :: "'a wstate list"
  proof (induction xs)
    case Nil
    then show ?case by simp
  next
    case (Cons x xs)
    have "length (filter is_live xs) \<le> length xs" by simp
    then have "length (filter is_live xs) \<noteq> Suc (length xs)" by linarith
    with Cons show ?case by (cases x) auto
  qed
  then show ?thesis by (simp add: live_def)
qed

lemma live_none: "(live p = 0) = (\<forall>w \<in> set (ws p). w = Exited)"
proof -
  have "(filter is_live xs = []) = (\<forall>w \<in> set xs. w = Exited)" for xs :: "'a wstate list"
  proof (induction xs)
    case Nil
    then show ?case by simp
  next
    case (Cons x xs)
    then show ?case by (cases x) auto
  qed
  then show ?thesis by (simp add: live_def)
qed

lemma start_loop_fields:
  "ws (start_loop k p) = ws p @ replicate k Idle"
  "wg (start_loop k p) = wg p + int k"
  "workers (start_loop k p) = workers p"
  "jobs_closed (start_loop k p) = jobs_closed p"
  "results_closed (start_loop k p) = results_closed p"
  "cancelled (start_loop k p) = cancelled p"
  "delivered (start_loop k p) = delivered p"
  by (induction k arbitrary: p; simp add: replicate_append_same)+

lemma NewPool_fields:
  "workers (NewPool E n) = (if n \<le> 0 then int (NumCPU E) else n)"
  "ws (NewPool E n) = []"
  "wg (NewPool E n) = 0"
  "\<not> jobs_closed (NewPool E n)"
  "\<not> results_closed (NewPool E n)"
  "\<not> cancelled (NewPool E n)"
  "delivered (NewPool E n) = []"
  by (simp_all add: NewPool_def Let_def)

lemma Start_NewPool_fields:
  "workers (Start (NewPool E n)) = (if n \<le> 0 then int (NumCPU E) else n)"
  "ws (Start (NewPool E n)) = replicate (nat (if n \<le> 0 then int (NumCPU E) else n)) Idle"
  "wg (Start (NewPool E n)) = int (nat (if n \<le> 0 then int (NumCPU E) else n))"
  "\<not> jobs_closed (Start (NewPool E n))"
  "\<not> results_closed (Start (NewPool E n))"
  "\<not> cancelled (Start (NewPool E n))"
  "delivered (Start (NewPool E n)) = []"
  by (simp_all add: Start_def start_loop_fields NewPool_fields)

lemma pool_inv_Start: "pool_inv (Start (NewPool E n))"
  by (simp add: pool_inv_def Start_NewPool_fields live_def)


lemma live_update:
  "i < length (ws p) \<Longrightarrow>
   length (filter is_live ((ws p)[i := w])) + (if is_live (ws p ! i) then 1 else 0)
     = live p + (if is_live w then 1 else 0)"
  unfolding live_def by (rule filter_update_count)

lemma in_flight_update:
  "i < length (ws p) \<Longrightarrow>
   length (filter is_in_flight ((ws p)[i := w])) + (if is_in_flight (ws p ! i) then 1 else 0)
     = in_flight p + (if is_in_flight w then 1 else 0)"
  unfolding in_flight_def by (rule filter_update_count)

lemma mem_updateD: "y \<in> set (xs[i := w]) \<Longrightarrow> y = w \<or> y \<in> set xs"
  using set_update_subset_insert[of xs i w] by auto

lemma exited_is_member: "i < length xs \<Longrightarrow> xs ! i = w \<Longrightarrow> w \<in> set xs"
  by auto

lemma pool_inv_Submit:
  assumes "pool_inv p" "pool_step (Submit i job) p = Some p'"
  shows "pool_inv p'"
proof -
  from assms(2) have i: "i < length (ws p)" and w: "ws p ! i = Idle"
    and p': "p' = set_worker i (Holding job) p"
    by (auto split: if_splits)
  from live_update[OF i, of "Holding job"] w
  have l: "live p' = live p" by (simp add: p' set_worker_def live_def)
  from assms(1) show ?thesis
    unfolding pool_inv_def l by (auto simp: p' set_worker_def dest: mem_updateD)
qed

lemma pool_inv_Select:
  assumes "pool_inv p" "pool_step (Select i) p = Some p'"
  shows "pool_inv p'"
proof -
  from assms(2) obtain job where i: "i < length (ws p)" and w: "ws p ! i = Holding job"
    and p': "p' = set_worker i (if cancelled p then SendingCancel else Running job) p"
    by (auto split: if_splits wstate.splits)
  from live_update[OF i, of "if cancelled p then SendingCancel else Running job"] w
  have l: "live p' = live p" by (cases "cancelled p") (simp_all add: p' set_worker_def live_def)
  from assms(1) show ?thesis
    unfolding pool_inv_def l by (auto simp: p' set_worker_def dest: mem_updateD)
qed

lemma pool_inv_Return:
  assumes "pool_inv p" "pool_step (Return i err) p = Some p'"
  shows "pool_inv p'"
proof -
  from assms(2) obtain job where i: "i < length (ws p)" and w: "ws p ! i = Running job"
    and p': "p' = set_worker i (SendingResult err) p"
    by (auto split: if_splits wstate.splits)
  from live_update[OF i, of "SendingResult err"] w
  have l: "live p' = live p" by (simp add: p' set_worker_def live_def)
  from assms(1) show ?thesis
    unfolding pool_inv_def l by (auto simp: p' set_worker_def dest: mem_updateD)
qed

lemma pool_inv_Deliver:
  assumes "pool_inv p" "pool_step (Deliver i) p = Some p'"
  shows "pool_inv p'"
proof -
  from assms(2) have i: "i < length (ws p)" and nc: "\<not> results_closed p"
    by (auto split: if_splits)
  from assms(2) i nc consider
      (res) err where "ws p ! i = SendingResult err"
        "p' = set_worker i Idle (p\<lparr>delivered := delivered p @ [err]\<rparr>)"
    | (can) "ws p ! i = SendingCancel"
        "p' = worker_exit i (p\<lparr>delivered := delivered p @ [Some ContextCanceled]\<rparr>)"
    by (auto split: wstate.splits)
  then show ?thesis
  proof cases
    case res
    from live_update[OF i, of Idle] res(1)
    have l: "live p' = live p" by (simp add: res(2) set_worker_def live_def)
    from assms(1) show ?thesis
      unfolding pool_inv_def l by (auto simp: res(2) set_worker_def dest: mem_updateD)
  next
    case can
    from live_update[OF i, of Exited] can(1)
    have l: "live p' + 1 = live p" by (simp add: can(2) worker_exit_def live_def)
    from can(1) i have "SendingCancel \<in> set (ws p)" by (metis nth_mem)
    with assms(1) have c: "cancelled p" unfolding pool_inv_def by blast
    from assms(1) nc c l show ?thesis
      unfolding pool_inv_def by (auto simp: can(2) worker_exit_def)
  qed
qed

lemma pool_inv_Leave:
  assumes "pool_inv p" "pool_step (Leave i) p = Some p'"
  shows "pool_inv p'"
proof -
  from assms(2) have i: "i < length (ws p)" and w: "ws p ! i = Idle" and jc: "jobs_closed p"
    and p': "p' = worker_exit i p"
    by (auto split: if_splits)
  from live_update[OF i, of Exited] w
  have l: "live p' + 1 = live p" by (simp add: p' worker_exit_def live_def)
  from l have l0: "live p \<noteq> 0" by simp
  from assms(1) jc l l0 show ?thesis
    unfolding pool_inv_def by (auto simp: p' worker_exit_def dest: mem_updateD)
qed

lemma pool_inv_CloseJobs:
  assumes "pool_inv p" "pool_step CloseJobs p = Some p'"
  shows "pool_inv p'"
proof -
  from assms(2) have p': "p' = p\<lparr>jobs_closed := True\<rparr>" by (auto split: if_splits)
  from assms(1) show ?thesis unfolding pool_inv_def by (auto simp: p' live_def)
qed

lemma pool_inv_CloseResults:
  assumes "pool_inv p" "pool_step CloseResults p = Some p'"
  shows "pool_inv p'"
proof -
  from assms(2) have p': "p' = p\<lparr>results_closed := True\<rparr>" and jc: "jobs_closed p"
    and z: "wg p = 0"
    by (auto split: if_splits)
  from assms(1) jc z show ?thesis unfolding pool_inv_def by (auto simp: p' live_def)
qed

lemma pool_inv_DoCancel:
  assumes "pool_inv p" "pool_step DoCancel p = Some p'"
  shows "pool_inv p'"
proof -
  from assms(2) have p': "p' = p\<lparr>cancelled := True\<rparr>" by (auto simp: Cancel_def)
  from assms(1) show ?thesis unfolding pool_inv_def by (auto simp: p' live_def)
qed

lemma pool_inv_step: "pool_inv p \<Longrightarrow> pool_step ev p = Some p' \<Longrightarrow> pool_inv p'"
  by (cases ev)
    (blast intro: pool_inv_Submit pool_inv_Select pool_inv_Return pool_inv_Deliver
      pool_inv_Leave pool_inv_CloseJobs pool_inv_CloseResults pool_inv_DoCancel)+

lemma pool_inv_run: "pool_inv p \<Longrightarrow> pool_run evs p = Some p' \<Longrightarrow> pool_inv p'"
proof (induction evs arbitrary: p)
  case Nil
  then show ?case by simp
next
  case (Cons ev evs)
  then show ?case by (auto split: option.splits dest: pool_inv_step)
qed


subsection \<open>One value for each job\<close>

lemma concat_update_mset:
  "i < length xs \<Longrightarrow>
   mset (concat (map f (xs[i := y]))) + mset (f (xs ! i))
     = mset (concat (map f xs)) + mset (f y)"
proof (induction xs arbitrary: i)
  case Nil
  then show ?case by simp
next
  case (Cons x xs)
  then show ?case by (cases i) (auto simp: ac_simps)
qed

lemma pending_update:
  "i < length (ws p) \<Longrightarrow>
   mset (concat (map sending ((ws p)[i := w]))) + mset (sending (ws p ! i))
     = mset (pending p) + mset (sending w)"
  unfolding pending_def by (rule concat_update_mset)

lemma step_count:
  assumes "pool_step ev p = Some p'"
  shows "(if is_submit ev then 1 else 0) + length (delivered p) + in_flight p
           = length (delivered p') + in_flight p'"
proof (cases ev)
  case (Submit i job)
  with assms have i: "i < length (ws p)" and w: "ws p ! i = Idle"
    and p': "p' = set_worker i (Holding job) p" by (auto split: if_splits)
  from in_flight_update[OF i, of "Holding job"] w show ?thesis
    by (simp add: Submit p' set_worker_def in_flight_def)
next
  case (Select i)
  with assms obtain job where i: "i < length (ws p)" and w: "ws p ! i = Holding job"
    and p': "p' = set_worker i (if cancelled p then SendingCancel else Running job) p"
    by (auto split: if_splits wstate.splits)
  from in_flight_update[OF i, of "if cancelled p then SendingCancel else Running job"] w
  show ?thesis
    by (cases "cancelled p") (simp_all add: Select p' set_worker_def in_flight_def)
next
  case (Return i err)
  with assms obtain job where i: "i < length (ws p)" and w: "ws p ! i = Running job"
    and p': "p' = set_worker i (SendingResult err) p"
    by (auto split: if_splits wstate.splits)
  from in_flight_update[OF i, of "SendingResult err"] w show ?thesis
    by (simp add: Return p' set_worker_def in_flight_def)
next
  case (Deliver i)
  with assms have i: "i < length (ws p)" by (auto split: if_splits)
  from assms Deliver i consider
      (res) err where "ws p ! i = SendingResult err"
        "p' = set_worker i Idle (p\<lparr>delivered := delivered p @ [err]\<rparr>)"
    | (can) "ws p ! i = SendingCancel"
        "p' = worker_exit i (p\<lparr>delivered := delivered p @ [Some ContextCanceled]\<rparr>)"
    by (auto split: wstate.splits if_splits)
  then show ?thesis
  proof cases
    case res
    from in_flight_update[OF i, of Idle] res(1) show ?thesis
      by (simp add: Deliver res(2) set_worker_def in_flight_def)
  next
    case can
    from in_flight_update[OF i, of Exited] can(1) show ?thesis
      by (simp add: Deliver can(2) worker_exit_def in_flight_def)
  qed
next
  case (Leave i)
  with assms have i: "i < length (ws p)" and w: "ws p ! i = Idle" and p': "p' = worker_exit i p"
    by (auto split: if_splits)
  from in_flight_update[OF i, of Exited] w show ?thesis
    by (simp add: Leave p' worker_exit_def in_flight_def)
next
  case CloseJobs
  with assms show ?thesis by (auto simp: in_flight_def split: if_splits)
next
  case CloseResults
  with assms show ?thesis by (auto simp: in_flight_def split: if_splits)
next
  case DoCancel
  with assms show ?thesis by (auto simp: in_flight_def Cancel_def)
qed

lemma run_count:
  "pool_run evs p = Some p' \<Longrightarrow>
   dequeued evs + length (delivered p) + in_flight p = length (delivered p') + in_flight p'"
proof (induction evs arbitrary: p)
  case Nil
  then show ?case by (simp add: dequeued_def)
next
  case (Cons ev evs)
  then obtain p1 where s: "pool_step ev p = Some p1" and r: "pool_run evs p1 = Some p'"
    by (auto split: option.splits)
  from step_count[OF s] Cons.IH[OF r] show ?case
    by (cases "is_submit ev") (simp_all add: dequeued_def)
qed

lemma step_values:
  assumes "pool_step ev p = Some p'"
  shows "mset (delivered p') + mset (pending p')
           = mset (delivered p) + mset (pending p) + mset (outcome ev p)"
proof (cases ev)
  case (Submit i job)
  with assms have i: "i < length (ws p)" and w: "ws p ! i = Idle"
    and p': "p' = set_worker i (Holding job) p" by (auto split: if_splits)
  from pending_update[OF i, of "Holding job"] w show ?thesis
    by (simp add: Submit p' set_worker_def pending_def)
next
  case (Select i)
  with assms obtain job where i: "i < length (ws p)" and w: "ws p ! i = Holding job"
    and p': "p' = set_worker i (if cancelled p then SendingCancel else Running job) p"
    by (auto split: if_splits wstate.splits)
  from pending_update[OF i, of "if cancelled p then SendingCancel else Running job"] w
  show ?thesis
    by (cases "cancelled p") (simp_all add: Select p' set_worker_def pending_def)
next
  case (Return i err)
  with assms obtain job where i: "i < length (ws p)" and w: "ws p ! i = Running job"
    and p': "p' = set_worker i (SendingResult err) p"
    by (auto split: if_splits wstate.splits)
  from pending_update[OF i, of "SendingResult err"] w show ?thesis
    by (simp add: Return p' set_worker_def pending_def)
next
  case (Deliver i)
  with assms have i: "i < length (ws p)" by (auto split: if_splits)
  from assms Deliver i consider
      (res) err where "ws p ! i = SendingResult err"
        "p' = set_worker i Idle (p\<lparr>delivered := delivered p @ [err]\<rparr>)"
    | (can) "ws p ! i = SendingCancel"
        "p' = worker_exit i (p\<lparr>delivered := delivered p @ [Some ContextCanceled]\<rparr>)"
    by (auto split: wstate.splits if_splits)
  then show ?thesis
  proof cases
    case res
    from pending_update[OF i, of Idle] res(1) show ?thesis
      by (simp add: Deliver res(2) set_worker_def pending_def)
  next
    case can
    from pending_update[OF i, of Exited] can(1) show ?thesis
      by (simp add: Deliver can(2) worker_exit_def pending_def)
  qed
next
  case (Leave i)
  with assms have i: "i < length (ws p)" and w: "ws p ! i = Idle" and p': "p' = worker_exit i p"
    by (auto split: if_splits)
  from pending_update[OF i, of Exited] w show ?thesis
    by (simp add: Leave p' worker_exit_def pending_def)
next
  case CloseJobs
  with assms show ?thesis by (auto simp: pending_def split: if_splits)
next
  case CloseResults
  with assms show ?thesis by (auto simp: pending_def split: if_splits)
next
  case DoCancel
  with assms show ?thesis by (auto simp: pending_def Cancel_def)
qed

lemma run_values:
  "pool_run evs p = Some p' \<Longrightarrow>
   mset (delivered p') + mset (pending p')
     = mset (delivered p) + mset (pending p) + mset (outcomes evs p)"
proof (induction evs arbitrary: p)
  case Nil
  then show ?case by simp
next
  case (Cons ev evs)
  then obtain p1 where s: "pool_step ev p = Some p1" and r: "pool_run evs p1 = Some p'"
    by (auto split: option.splits)
  from step_values[OF s] Cons.IH[OF r] show ?case
    by (simp add: s ac_simps)
qed

lemma no_live_no_flight: "live p = 0 \<Longrightarrow> in_flight p = 0 \<and> pending p = []"
proof -
  assume "live p = 0"
  then have a: "\<forall>w \<in> set (ws p). w = Exited" by (simp add: live_none)
  then have "filter is_in_flight (ws p) = []" by (auto simp: filter_empty_conv)
  moreover from a have "concat (map sending (ws p)) = []" by auto
  ultimately show ?thesis by (simp add: in_flight_def pending_def)
qed

text \<open>
  Claim C2. In every schedule of a started pool, each job that a worker has received
  (\<open>dequeued\<close>) is either still in flight or has had one value received from the results
  channel; the values received and those being sent are, with multiplicity, exactly the
  outcomes the schedule produced: the error each finished job returned and the cancellation
  error for each job met by a cancelled context. The results channel is closed only when
  \<open>Stop\<close> has closed the jobs channel and found the WaitGroup counter at zero, every worker
  having exited; then nothing is in flight and the values received are one for each job.
\<close>

theorem results_exactly_once:
  "pool_run evs (Start (NewPool E n)) = Some p \<Longrightarrow>
   dequeued evs = length (delivered p) + in_flight p
   \<and> mset (delivered p) + mset (pending p) = mset (outcomes evs (Start (NewPool E n)))
   \<and> (results_closed p \<longrightarrow>
        jobs_closed p \<and> wg p = 0 \<and> live p = 0 \<and> in_flight p = 0
        \<and> length (delivered p) = dequeued evs
        \<and> mset (delivered p) = mset (outcomes evs (Start (NewPool E n))))"
proof -
  assume r: "pool_run evs (Start (NewPool E n)) = Some p"
  have z: "in_flight (Start (NewPool E n) :: 'a Pool) = 0"
    "pending (Start (NewPool E n) :: 'a Pool) = []"
    by (simp_all add: in_flight_def pending_def Start_NewPool_fields)
  from run_count[OF r] z have c: "dequeued evs = length (delivered p) + in_flight p"
    by (simp add: Start_NewPool_fields)
  from run_values[OF r] z
  have v: "mset (delivered p) + mset (pending p) = mset (outcomes evs (Start (NewPool E n)))"
    by (simp add: Start_NewPool_fields)
  from pool_inv_run[OF pool_inv_Start r] have inv: "pool_inv p" .
  have "jobs_closed p \<and> wg p = 0 \<and> live p = 0 \<and> in_flight p = 0
        \<and> length (delivered p) = dequeued evs
        \<and> mset (delivered p) = mset (outcomes evs (Start (NewPool E n)))"
    if rc: "results_closed p"
  proof -
    from inv rc have j: "jobs_closed p" and l: "live p = 0" and w: "wg p = 0"
      unfolding pool_inv_def by auto
    from no_live_no_flight[OF l] c v j l w show ?thesis by simp
  qed
  with c v show ?thesis by blast
qed


theorem results_exactly_once_witness:
  "pool_run [Submit 0 ''a.mov'', Select 0, Return 0 None, Deliver 0, CloseJobs, Leave 0, Leave 1,
             CloseResults] (Start (NewPool example_env 2))
     = Some \<lparr>workers = 2, ws = [Exited, Exited], jobs_closed = True, results_closed = True,
             wg = 0, cancelled = False, delivered = [None]\<rparr>
   \<and> dequeued [Submit 0 ''a.mov'', Select 0, Return 0 None, Deliver 0, CloseJobs, Leave 0,
                Leave 1, CloseResults] = 1
   \<and> length (delivered \<lparr>workers = 2, ws = [Exited, Exited :: string wstate], jobs_closed = True,
        results_closed = True, wg = 0, cancelled = False, delivered = [None]\<rparr>) = 1"
proof -
  let ?evs = "[Submit 0 ''a.mov'', Select 0, Return 0 None, Deliver 0, CloseJobs, Leave 0,
                Leave 1, CloseResults]"
  let ?p = "\<lparr>workers = 2, ws = [Exited, Exited :: string wstate], jobs_closed = True,
        results_closed = True, wg = 0, cancelled = False, delivered = [None]\<rparr>"
  have r: "pool_run ?evs (Start (NewPool example_env 2)) = Some ?p"
    by (simp add: Start_def NewPool_def Let_def numeral_2_eq_2 set_worker_def worker_exit_def)
  from results_exactly_once[OF r] have "length (delivered ?p) = dequeued ?evs" by simp
  moreover have "dequeued ?evs = 1" by (simp add: dequeued_def)
  ultimately show ?thesis using r by simp
qed


subsection \<open>Cancellation\<close>

lemma step_keeps_shape:
  "pool_step ev p = Some p' \<Longrightarrow>
   length (ws p') = length (ws p) \<and> workers p' = workers p
   \<and> (cancelled p \<longrightarrow> cancelled p') \<and> (jobs_closed p \<longrightarrow> jobs_closed p')"
  by (cases ev)
    (auto simp: set_worker_def worker_exit_def Cancel_def split: if_splits wstate.splits)

lemma run_keeps_shape:
  "pool_run evs p = Some p' \<Longrightarrow>
   length (ws p') = length (ws p) \<and> workers p' = workers p
   \<and> (cancelled p \<longrightarrow> cancelled p') \<and> (jobs_closed p \<longrightarrow> jobs_closed p')"
proof (induction evs arbitrary: p)
  case Nil
  then show ?case by simp
next
  case (Cons ev evs)
  then obtain p1 where s: "pool_step ev p = Some p1" and r: "pool_run evs p1 = Some p'"
    by (auto split: option.splits)
  from step_keeps_shape[OF s] Cons.IH[OF r] show ?case by simp
qed

lemma step_no_new_job:
  assumes "pool_step ev p = Some p'" "cancelled p" "ws p' ! i = Running job" "i < length (ws p)"
  shows "ws p ! i = Running job"
proof (cases ev)
  case (Submit k j)
  with assms show ?thesis
    by (cases "k = i") (auto simp: set_worker_def split: if_splits)
next
  case (Select k)
  with assms show ?thesis
    by (cases "k = i") (auto simp: set_worker_def split: if_splits wstate.splits)
next
  case (Return k err)
  with assms show ?thesis
    by (cases "k = i") (auto simp: set_worker_def split: if_splits wstate.splits)
next
  case (Deliver k)
  with assms show ?thesis
    by (cases "k = i") (auto simp: set_worker_def worker_exit_def split: if_splits wstate.splits)
next
  case (Leave k)
  with assms show ?thesis
    by (cases "k = i") (auto simp: worker_exit_def split: if_splits)
next
  case CloseJobs
  with assms show ?thesis by (auto split: if_splits)
next
  case CloseResults
  with assms show ?thesis by (auto split: if_splits)
next
  case DoCancel
  with assms show ?thesis by (auto simp: Cancel_def)
qed

lemma run_no_new_job:
  "pool_run evs p = Some p' \<Longrightarrow> cancelled p \<Longrightarrow> i < length (ws p) \<Longrightarrow>
   ws p' ! i = Running job \<Longrightarrow> ws p ! i = Running job"
proof (induction evs arbitrary: p)
  case Nil
  then show ?case by simp
next
  case (Cons ev evs)
  then obtain p1 where s: "pool_step ev p = Some p1" and r: "pool_run evs p1 = Some p'"
    by (auto split: option.splits)
  from step_keeps_shape[OF s] Cons.prems have c1: "cancelled p1" and i1: "i < length (ws p1)"
    by auto
  from Cons.IH[OF r c1 i1 Cons.prems(4)] have "ws p1 ! i = Running job" .
  from step_no_new_job[OF s Cons.prems(2) this Cons.prems(3)] show ?case .
qed

lemma step_stays_out:
  assumes "pool_step ev p = Some p'" "is_short_circuited (ws p ! i)" "i < length (ws p)"
  shows "is_short_circuited (ws p' ! i)"
proof (cases ev)
  case (Submit k j)
  with assms show ?thesis
    by (cases "k = i") (auto simp: set_worker_def split: if_splits)
next
  case (Select k)
  with assms show ?thesis
    by (cases "k = i") (auto simp: set_worker_def split: if_splits wstate.splits)
next
  case (Return k err)
  with assms show ?thesis
    by (cases "k = i") (auto simp: set_worker_def split: if_splits wstate.splits)
next
  case (Deliver k)
  with assms show ?thesis
    by (cases "k = i") (auto simp: set_worker_def worker_exit_def split: if_splits wstate.splits)
next
  case (Leave k)
  with assms show ?thesis
    by (cases "k = i") (auto simp: worker_exit_def split: if_splits)
next
  case CloseJobs
  with assms show ?thesis by (auto split: if_splits)
next
  case CloseResults
  with assms show ?thesis by (auto split: if_splits)
next
  case DoCancel
  with assms show ?thesis by (auto simp: Cancel_def)
qed

lemma run_stays_out:
  "pool_run evs p = Some p' \<Longrightarrow> is_short_circuited (ws p ! i) \<Longrightarrow> i < length (ws p) \<Longrightarrow>
   is_short_circuited (ws p' ! i)"
proof (induction evs arbitrary: p)
  case Nil
  then show ?case by simp
next
  case (Cons ev evs)
  then obtain p1 where s: "pool_step ev p = Some p1" and r: "pool_run evs p1 = Some p'"
    by (auto split: option.splits)
  from step_keeps_shape[OF s] Cons.prems have i1: "i < length (ws p1)" by auto
  from Cons.IH[OF r step_stays_out[OF s Cons.prems(2) Cons.prems(3)] i1] show ?case .
qed

text \<open>
  Claim C3. In a pool whose cancellation signal is raised, a worker holding a job it has
  just received takes the cancellation branch of its \<open>select\<close>: it does not execute the job
  but sends the cancellation error, and when that is received it has exited. A worker that
  has taken that branch never holds or runs a job again. And whatever happens next, the
  signal stays raised and a worker runs a job only if it was already running that job:
  no job body begins after the signal is raised.
\<close>

theorem cancellation_stops_new_jobs:
  "pool_run evs (Start (NewPool E n)) = Some p \<Longrightarrow> cancelled p \<Longrightarrow> i < length (ws p) \<Longrightarrow>
   (ws p ! i = Holding job \<longrightarrow> pool_step (Select i) p = Some (set_worker i SendingCancel p))
   \<and> (ws p ! i = SendingCancel \<longrightarrow>
        pool_step (Deliver i) p
          = Some (worker_exit i (p\<lparr>delivered := delivered p @ [Some ContextCanceled]\<rparr>)))
   \<and> (\<forall>evs' p'. pool_run evs' p = Some p' \<longrightarrow>
          cancelled p'
          \<and> (is_short_circuited (ws p ! i) \<longrightarrow> is_short_circuited (ws p' ! i))
          \<and> (\<forall>job'. ws p' ! i = Running job' \<longrightarrow> ws p ! i = Running job'))"
proof -
  assume r: "pool_run evs (Start (NewPool E n)) = Some p" and c: "cancelled p"
    and i: "i < length (ws p)"
  from pool_inv_run[OF pool_inv_Start r] have inv: "pool_inv p" .
  have a: "pool_step (Select i) p = Some (set_worker i SendingCancel p)"
    if "ws p ! i = Holding job"
    using that c i by simp
  have b: "pool_step (Deliver i) p
          = Some (worker_exit i (p\<lparr>delivered := delivered p @ [Some ContextCanceled]\<rparr>))"
    if w: "ws p ! i = SendingCancel"
  proof -
    from w i have "SendingCancel \<in> set (ws p)" by (metis nth_mem)
    then have "live p \<noteq> 0" by (auto simp: live_none)
    with inv have "\<not> results_closed p" unfolding pool_inv_def by blast
    with w i show ?thesis by simp
  qed
  have d: "cancelled p'
          \<and> (is_short_circuited (ws p ! i) \<longrightarrow> is_short_circuited (ws p' ! i))
          \<and> (\<forall>job'. ws p' ! i = Running job' \<longrightarrow> ws p ! i = Running job')"
    if r': "pool_run evs' p = Some p'" for evs' p'
    using run_keeps_shape[OF r'] c run_stays_out[OF r' _ i] run_no_new_job[OF r' c i]
    by blast
  from a b d show ?thesis by blast
qed


theorem cancellation_stops_new_jobs_witness:
  "pool_run [Submit 0 ''a.mov'', Submit 1 ''b.mov'', Select 1, DoCancel]
       (Start (NewPool example_env 2))
     = Some \<lparr>workers = 2, ws = [Holding ''a.mov'', Running ''b.mov''], jobs_closed = False,
             results_closed = False, wg = 2, cancelled = True, delivered = []\<rparr>
   \<and> pool_run [Select 0, Deliver 0, Return 1 None, Deliver 1]
       \<lparr>workers = 2, ws = [Holding ''a.mov'', Running ''b.mov''], jobs_closed = False,
        results_closed = False, wg = 2, cancelled = True, delivered = []\<rparr>
     = Some \<lparr>workers = 2, ws = [Exited, Idle], jobs_closed = False,
             results_closed = False, wg = 1, cancelled = True,
             delivered = [Some ContextCanceled, None]\<rparr>
   \<and> pool_step (Select 0)
       \<lparr>workers = 2, ws = [Holding ''a.mov'', Running ''b.mov''], jobs_closed = False,
        results_closed = False, wg = 2, cancelled = True, delivered = []\<rparr>
     = Some \<lparr>workers = 2, ws = [SendingCancel, Running ''b.mov''], jobs_closed = False,
             results_closed = False, wg = 2, cancelled = True, delivered = []\<rparr>"
proof -
  let ?p = "\<lparr>workers = 2, ws = [Holding ''a.mov'', Running ''b.mov''], jobs_closed = False,
        results_closed = False, wg = 2, cancelled = True, delivered = []\<rparr>"
  have r: "pool_run [Submit 0 ''a.mov'', Submit 1 ''b.mov'', Select 1, DoCancel]
       (Start (NewPool example_env 2)) = Some ?p"
    by (simp add: Start_def NewPool_def Let_def numeral_2_eq_2 set_worker_def Cancel_def)
  have c: "cancelled ?p" and i: "0 < length (ws ?p)" by simp_all
  have r': "pool_run [Select 0, Deliver 0, Return 1 None, Deliver 1] ?p
     = Some \<lparr>workers = 2, ws = [Exited, Idle], jobs_closed = False,
             results_closed = False, wg = 1, cancelled = True,
             delivered = [Some ContextCanceled, None]\<rparr>"
    by (simp add: set_worker_def worker_exit_def)
  from cancellation_stops_new_jobs[OF r c i, of "''a.mov''"]
  have "pool_step (Select 0) ?p = Some (set_worker 0 SendingCancel ?p)" by simp
  then have "pool_step (Select 0) ?p
     = Some \<lparr>workers = 2, ws = [SendingCancel, Running ''b.mov''], jobs_closed = False,
             results_closed = False, wg = 2, cancelled = True, delivered = []\<rparr>"
    by (simp add: set_worker_def)
  with r r' show ?thesis by blast
qed


subsection \<open>Live workers\<close>

lemma early_exit_inv_step:
  assumes "pool_step ev p = Some p'" "early_exit_inv p"
  shows "early_exit_inv p'"
proof (cases ev)
  case (Submit i job)
  with assms(1) have i: "i < length (ws p)" and w: "ws p ! i = Idle"
    and p': "p' = set_worker i (Holding job) p" by (auto split: if_splits)
  from live_update[OF i, of "Holding job"] w assms(2) show ?thesis
    by (auto simp: early_exit_inv_def p' set_worker_def live_def)
next
  case (Select i)
  with assms(1) obtain job where i: "i < length (ws p)" and w: "ws p ! i = Holding job"
    and p': "p' = set_worker i (if cancelled p then SendingCancel else Running job) p"
    by (auto split: if_splits wstate.splits)
  from live_update[OF i, of "if cancelled p then SendingCancel else Running job"] w assms(2)
  show ?thesis
    by (cases "cancelled p") (auto simp: early_exit_inv_def p' set_worker_def live_def)
next
  case (Return i err)
  with assms(1) obtain job where i: "i < length (ws p)" and w: "ws p ! i = Running job"
    and p': "p' = set_worker i (SendingResult err) p"
    by (auto split: if_splits wstate.splits)
  from live_update[OF i, of "SendingResult err"] w assms(2) show ?thesis
    by (auto simp: early_exit_inv_def p' set_worker_def live_def)
next
  case (Deliver i)
  with assms(1) have i: "i < length (ws p)" by (auto split: if_splits)
  from assms(1) Deliver i consider
      (res) err where "ws p ! i = SendingResult err"
        "p' = set_worker i Idle (p\<lparr>delivered := delivered p @ [err]\<rparr>)"
    | (can) "ws p ! i = SendingCancel"
        "p' = worker_exit i (p\<lparr>delivered := delivered p @ [Some ContextCanceled]\<rparr>)"
    by (auto split: wstate.splits if_splits)
  then show ?thesis
  proof cases
    case res
    from live_update[OF i, of Idle] res(1) assms(2) show ?thesis
      by (auto simp: early_exit_inv_def res(2) set_worker_def live_def)
  next
    case can
    from live_update[OF i, of Exited] can(1) assms(2) show ?thesis
      by (auto simp: early_exit_inv_def can(2) worker_exit_def live_def)
  qed
next
  case (Leave i)
  with assms show ?thesis
    by (auto simp: early_exit_inv_def worker_exit_def split: if_splits)
next
  case CloseJobs
  with assms show ?thesis by (auto simp: early_exit_inv_def split: if_splits)
next
  case CloseResults
  with assms show ?thesis by (auto simp: early_exit_inv_def split: if_splits)
next
  case DoCancel
  with assms show ?thesis by (auto simp: early_exit_inv_def Cancel_def live_def)
qed

lemma early_exit_inv_run:
  "pool_run evs p = Some p' \<Longrightarrow> early_exit_inv p \<Longrightarrow> early_exit_inv p'"
proof (induction evs arbitrary: p)
  case Nil
  then show ?case by simp
next
  case (Cons ev evs)
  then show ?case by (auto split: option.splits dest: early_exit_inv_step)
qed

lemma early_exit_inv_Start: "early_exit_inv (Start (NewPool E n))"
  by (simp add: early_exit_inv_def Start_NewPool_fields live_def)

text \<open>
  Claim C8, as amended. \<open>Start\<close> spawns exactly the configured number of workers (the given
  count, or the number of processors when it is not positive). In every schedule after it
  the number of live workers never exceeds that count and is the WaitGroup counter; it
  equals the count as long as the jobs channel is not closed and the cancellation signal is
  not raised; and while the jobs channel is open, each worker that has exited has delivered
  a cancellation error (it received a job after the signal was raised).
\<close>

theorem pool_live_workers:
  "pool_run evs (Start (NewPool E n)) = Some (p :: 'j Pool) \<Longrightarrow>
   workers p = (if n \<le> 0 then int (NumCPU E) else n)
   \<and> live (Start (NewPool E n) :: 'j Pool) = nat (workers p)
   \<and> length (ws p) = nat (workers p)
   \<and> live p \<le> nat (workers p)
   \<and> wg p = int (live p)
   \<and> (\<not> jobs_closed p \<and> \<not> cancelled p \<longrightarrow> live p = nat (workers p))
   \<and> (\<not> jobs_closed p \<longrightarrow>
        nat (workers p) \<le> live p + count_list (delivered p) (Some ContextCanceled))"
proof -
  assume r: "pool_run evs (Start (NewPool E n)) = Some (p :: 'j Pool)"
  from early_exit_inv_run[OF r early_exit_inv_Start] have ee: "early_exit_inv p" .
  from pool_inv_run[OF pool_inv_Start r] have inv: "pool_inv p" .
  from run_keeps_shape[OF r] have w: "workers p = (if n \<le> 0 then int (NumCPU E) else n)"
    by (simp add: Start_NewPool_fields)
  have l0: "live (Start (NewPool E n) :: 'j Pool) = nat (workers p)"
    by (simp add: w live_def Start_NewPool_fields)
  have le: "live p \<le> length (ws p)" by (simp add: live_def)
  from inv have len: "length (ws p) = nat (workers p)" and g: "wg p = int (live p)"
    unfolding pool_inv_def by auto
  have all: "live p = nat (workers p)" if "\<not> jobs_closed p" "\<not> cancelled p"
  proof -
    from inv that have "Exited \<notin> set (ws p)" unfolding pool_inv_def by blast
    then have "live p = length (ws p)" by (simp add: live_all)
    with len show ?thesis by simp
  qed
  from ee len have early: "nat (workers p) \<le> live p + count_list (delivered p) (Some ContextCanceled)"
    if "\<not> jobs_closed p"
    using that unfolding early_exit_inv_def by simp
  from w l0 le len g all early show ?thesis by simp
qed


theorem pool_live_workers_witness:
  "pool_run [Submit 0 ''a.mov'', Select 0] (Start (NewPool example_env 2))
     = Some \<lparr>workers = 2, ws = [Running ''a.mov'', Idle], jobs_closed = False,
             results_closed = False, wg = 2, cancelled = False, delivered = []\<rparr>
   \<and> live \<lparr>workers = 2, ws = [Running ''a.mov'', Idle], jobs_closed = False,
            results_closed = False, wg = 2, cancelled = False, delivered = []\<rparr> = 2"
proof -
  let ?p = "\<lparr>workers = 2, ws = [Running ''a.mov'', Idle], jobs_closed = False,
             results_closed = False, wg = 2, cancelled = False, delivered = []\<rparr>"
  have r: "pool_run [Submit 0 ''a.mov'', Select 0] (Start (NewPool example_env 2)) = Some ?p"
    by (simp add: Start_def NewPool_def Let_def numeral_2_eq_2 set_worker_def)
  from pool_live_workers[OF r] have "live ?p = nat (workers ?p)" by simp
  with r show ?thesis by simp
qed


text \<open>
  The claim as stated fails while the cancellation signal is raised: after \<open>Cancel\<close>, a
  worker that receives a job sends the cancellation error and returns, so one of the two
  workers has exited although \<open>Stop\<close> has not been called and the jobs channel is open.
\<close>

theorem pool_live_workers_counterexample:
  "pool_run [DoCancel, Submit 0 ''a.mov'', Select 0, Deliver 0] (Start (NewPool example_env 2))
     = Some \<lparr>workers = 2, ws = [Exited, Idle], jobs_closed = False, results_closed = False,
             wg = 1, cancelled = True, delivered = [Some ContextCanceled]\<rparr>
   \<and> live \<lparr>workers = 2, ws = [Exited, Idle :: string wstate], jobs_closed = False,
            results_closed = False, wg = 1, cancelled = True,
            delivered = [Some ContextCanceled]\<rparr> = 1"
  by (simp add: Start_def NewPool_def Let_def numeral_2_eq_2 Cancel_def set_worker_def
      worker_exit_def live_def)


end
